theory Spec2Isabelle
  imports Complex_Main
begin

section \<open>constants.js\<close>

datatype signal = GREEN | YELLOW | RED

datatype route = A | B | C | D

datatype phase = PHASE_AC_GREEN | PHASE_AC_YELLOW | PHASE_BD_GREEN | PHASE_BD_YELLOW

datatype msg_type = CAMERA_UPDATE | SUBSCRIBE | UNSUBSCRIBE | QUERY | STATUS | ERROR

text \<open>\<open>Object.values(ROUTES)\<close>, in the order of the object literal.\<close>

definition ROUTES :: "route list" where
  "ROUTES = [A, B, C, D]"

section \<open>JavaScript numbers\<close>

text \<open>
  A JavaScript number is an IEEE 754 binary64 value: a finite double, an infinity or NaN.
  A finite double is a real number here; the sign of zero is not modelled (nothing in
  the program divides by zero or prints a zero).
\<close>

datatype number = Fin real | PInf | NInf | NaN

text \<open>
  Rounding a real number to the nearest double, a tie going to the even significand.
  \<open>expo x\<close> is the exponent of the binade of \<open>x\<close> (not below that of the subnormal
  numbers), a unit in the last place is \<open>2 powi (expo x - 52)\<close>, and a result of
  \<open>2 powi 1024\<close> or more is an infinity.
\<close>

definition expo :: "real \<Rightarrow> int" where
  "expo x = max \<lfloor>log 2 x\<rfloor> (- 1022)"

definition rne :: "real \<Rightarrow> int" where
  "rne y =
     (let f = \<lfloor>y\<rfloor>; r = y - of_int f
      in if r < 1 / 2 then f else if 1 / 2 < r then f + 1 else if even f then f else f + 1)"

definition huge :: real where
  "huge = 2 powi 1024"

definition fl_pos :: "real \<Rightarrow> number" where
  "fl_pos x =
     (let u = 2 powi (expo x - 52);
          y = of_int (rne (x / u)) * u
      in if huge \<le> y then PInf else Fin y)"

definition fneg :: "number \<Rightarrow> number" where
  "fneg a = (case a of Fin x \<Rightarrow> Fin (- x) | PInf \<Rightarrow> NInf | NInf \<Rightarrow> PInf | NaN \<Rightarrow> NaN)"

definition fl :: "real \<Rightarrow> number" where
  "fl x = (if x = 0 then Fin 0 else if 0 < x then fl_pos x else fneg (fl_pos (- x)))"

text \<open>The non-negative doubles: zero, and the numbers with a significand of 53 bits.\<close>

definition dbl :: "real \<Rightarrow> bool" where
  "dbl y =
     (y = 0 \<or>
      (\<exists>n e. 0 < n \<and> n < 2 ^ 53 \<and> - 1022 \<le> e \<and> e \<le> 1023 \<and>
             y = of_int n * 2 powi (e - 52)))"

text \<open>The arithmetic operators: the exact result, rounded.\<close>

fun fadd :: "number \<Rightarrow> number \<Rightarrow> number" where
  "fadd NaN b = NaN"
| "fadd a NaN = NaN"
| "fadd (Fin x) (Fin y) = fl (x + y)"
| "fadd PInf NInf = NaN"
| "fadd NInf PInf = NaN"
| "fadd PInf b = PInf"
| "fadd NInf b = NInf"
| "fadd (Fin x) b = b"

definition fsub :: "number \<Rightarrow> number \<Rightarrow> number" where
  "fsub a b = fadd a (fneg b)"

fun fmul :: "number \<Rightarrow> number \<Rightarrow> number" where
  "fmul NaN b = NaN"
| "fmul a NaN = NaN"
| "fmul (Fin x) (Fin y) = fl (x * y)"
| "fmul (Fin x) b = (if x = 0 then NaN else if 0 < x then b else fneg b)"
| "fmul a (Fin y) = (if y = 0 then NaN else if 0 < y then a else fneg a)"
| "fmul a b = (if a = b then PInf else NInf)"

fun fdiv :: "number \<Rightarrow> number \<Rightarrow> number" where
  "fdiv NaN b = NaN"
| "fdiv a NaN = NaN"
| "fdiv (Fin x) (Fin y) =
     (if y = 0 then (if x = 0 then NaN else if 0 < x then PInf else NInf) else fl (x / y))"
| "fdiv (Fin x) b = Fin 0"
| "fdiv a (Fin y) = (if 0 \<le> y then a else fneg a)"
| "fdiv a b = NaN"

text \<open>\<open>a >= b\<close> and \<open>a === b\<close>; a comparison with NaN is false.\<close>

fun ge :: "number \<Rightarrow> number \<Rightarrow> bool" where
  "ge NaN b = False"
| "ge a NaN = False"
| "ge (Fin x) (Fin y) = (y \<le> x)"
| "ge PInf b = True"
| "ge a NInf = True"
| "ge a b = False"

definition strict_eq :: "number \<Rightarrow> number \<Rightarrow> bool" where
  "strict_eq a b = (if a = NaN then False else a = b)"

definition isNaN :: "number \<Rightarrow> bool" where
  "isNaN a = (a = NaN)"

definition Math_max :: "number \<Rightarrow> number \<Rightarrow> number" where
  "Math_max a b = (if a = NaN then NaN else if b = NaN then NaN else if ge a b then a else b)"

text \<open>\<open>Math.round\<close>: the nearest integer, a tie going up.\<close>

definition Math_round :: "number \<Rightarrow> number" where
  "Math_round a = (case a of Fin x \<Rightarrow> Fin (of_int \<lfloor>x + 1 / 2\<rfloor>) | _ \<Rightarrow> a)"

text \<open>\<open>x || 0\<close> for a number: NaN and zero are falsy.\<close>

definition or_zero :: "number \<Rightarrow> number" where
  "or_zero x = (if x = NaN then Fin 0 else if x = Fin 0 then Fin 0 else x)"

text \<open>The TIMING table, in seconds, and the TRAFFIC_WEIGHTS table.\<close>

definition MIN_GREEN :: number where
  "MIN_GREEN = Fin 5"

definition MAX_GREEN :: number where
  "MAX_GREEN = Fin 60"

definition YELLOW_DURATION :: number where
  "YELLOW_DURATION = Fin 3"

definition NORMAL_VEHICLE :: number where
  "NORMAL_VEHICLE = Fin 1"

definition HEAVY_VEHICLE :: number where
  "HEAVY_VEHICLE = fl (5 / 2)"

section \<open>JavaScript values\<close>

text \<open>
  Values that reach the server are the results of \<open>JSON.parse\<close>. A JSON object is the
  list of its own properties (the first binding of a key is the property's value); it
  inherits the methods of \<open>Object.prototype\<close>, an array those of \<open>Array.prototype\<close>.
  \<open>undefined\<close> is \<open>None\<close> of \<open>json option\<close>. Strings are lists of 8-bit code
  units.
\<close>

datatype json =
    JNull
  | JBool bool
  | JNum number
  | JStr string
  | JArr "json list"
  | JObj "(string \<times> json) list"

datatype js_error = TypeError | Error string

fun digits10 :: "nat \<Rightarrow> string" where
  "digits10 n =
     (if n < 10 then [char_of (48 + n)]
      else digits10 (n div 10) @ [char_of (48 + n mod 10)])"

declare digits10.simps [simp del]

text \<open>
  \<open>Number::toString\<close> of a positive finite number, as ECMAScript defines it: with
  \<open>k\<close> as small as possible, integers \<open>n\<close>, \<open>k\<close> and \<open>s\<close> such that \<open>s\<close> has
  \<open>k\<close> digits and \<open>s * 10 ^ (n - k)\<close> rounds to the number; the standard leaves the
  choice among several \<open>s\<close> open. The digits are laid out in decimal notation for
  \<open>n\<close> from -5 to 21 and in exponent notation otherwise.
\<close>

definition digits_of :: "real \<Rightarrow> int \<Rightarrow> nat \<Rightarrow> nat \<Rightarrow> bool" where
  "digits_of x n k s =
     (1 \<le> k \<and> 10 ^ (k - 1) \<le> s \<and> s < 10 ^ k \<and> fl (of_nat s * 10 powi (n - int k)) = Fin x)"

definition shortest_k :: "real \<Rightarrow> nat" where
  "shortest_k x = (LEAST k. \<exists>n s. digits_of x n k s)"

definition shortest_ns :: "real \<Rightarrow> int \<times> nat" where
  "shortest_ns x = (SOME ns. digits_of x (fst ns) (shortest_k x) (snd ns))"

definition layout :: "int \<Rightarrow> nat \<Rightarrow> nat \<Rightarrow> string" where
  "layout n k s =
     (let ds = digits10 s in
      if - 5 \<le> n \<and> n \<le> 21 then
        (if int k \<le> n then ds @ replicate (nat (n - int k)) CHR ''0''
         else if 0 < n then take (nat n) ds @ ''.'' @ drop (nat n) ds
         else ''0.'' @ replicate (nat (- n)) CHR ''0'' @ ds)
      else
        (let c = (if 0 \<le> n - 1 then CHR ''+'' else CHR ''-'');
             e = digits10 (nat \<bar>n - 1\<bar>)
         in if k = 1 then ds @ ''e'' @ [c] @ e
            else [hd ds] @ ''.'' @ tl ds @ ''e'' @ [c] @ e))"

text \<open>
  An integer below \<open>2 ^ 53\<close> is printed by its decimal digits: no shorter digit string
  rounds to it, and no other one of that length.
\<close>

definition toString_pos :: "real \<Rightarrow> string" where
  "toString_pos x =
     (if x = of_int \<lfloor>x\<rfloor> \<and> x < 2 ^ 53 then digits10 (nat \<lfloor>x\<rfloor>)
      else layout (fst (shortest_ns x)) (shortest_k x) (snd (shortest_ns x)))"

definition Number_toString :: "number \<Rightarrow> string" where
  "Number_toString a =
     (case a of
        NaN \<Rightarrow> ''NaN''
      | PInf \<Rightarrow> ''Infinity''
      | NInf \<Rightarrow> ''-Infinity''
      | Fin x \<Rightarrow>
          (if x = 0 then ''0''
           else if x < 0 then CHR ''-'' # toString_pos (- x)
           else toString_pos x))"

text \<open>
  \<open>ToString\<close> of a parsed value. An object with an own property \<open>toString\<close> has
  no callable conversion left (a parsed value is never a function, and
  \<open>Object.prototype.valueOf\<close> returns the object itself), so the conversion throws a
  TypeError. \<open>Array.prototype.join\<close> prints \<open>null\<close> as the empty string.
\<close>

fun ToString :: "json \<Rightarrow> js_error + string"
  and join_from :: "json list \<Rightarrow> js_error + string"
  where
    "ToString JNull = Inr ''null''"
  | "ToString (JBool b) = Inr (if b then ''true'' else ''false'')"
  | "ToString (JNum n) = Inr (Number_toString n)"
  | "ToString (JStr s) = Inr s"
  | "ToString (JArr xs) = join_from xs"
  | "ToString (JObj kvs) =
       (if map_of kvs ''toString'' \<noteq> None then Inl TypeError else Inr ''[object Object]'')"
  | "join_from [] = Inr []"
  | "join_from (x # xs) =
       (case (if x = JNull then Inr [] else ToString x) of
          Inl e \<Rightarrow> Inl e
        | Inr s \<Rightarrow>
            (if xs = [] then Inr s
             else (case join_from xs of Inl e \<Rightarrow> Inl e | Inr t \<Rightarrow> Inr (s @ '','' @ t))))"

definition isStrWhiteSpace :: "char \<Rightarrow> bool" where
  "isStrWhiteSpace c =
     (c \<in> set [CHR 0x09, CHR 0x0A, CHR 0x0B, CHR 0x0C, CHR 0x0D, CHR 0x20, CHR 0xA0])"

definition digitValue :: "char \<Rightarrow> nat option" where
  "digitValue c =
     (let k = (of_char c :: nat) in
      if 48 \<le> k \<and> k \<le> 57 then Some (k - 48)
      else if 97 \<le> k \<and> k \<le> 122 then Some (k - 87)
      else if 65 \<le> k \<and> k \<le> 90 then Some (k - 55)
      else None)"

definition isRadixDigit :: "nat \<Rightarrow> char \<Rightarrow> bool" where
  "isRadixDigit R c = (case digitValue c of None \<Rightarrow> False | Some d \<Rightarrow> d < R)"

definition radixValue :: "nat \<Rightarrow> string \<Rightarrow> nat" where
  "radixValue R Z =
     foldl (\<lambda>acc c. (case digitValue c of None \<Rightarrow> acc | Some d \<Rightarrow> acc * R + d)) 0 Z"

text \<open>
  \<open>parseInt\<close> of a string with no radix argument: leading white space is skipped, a
  sign is read, \<open>0x\<close> selects radix 16, and the longest prefix of digits is the
  mathematical value; \<open>None\<close> stands for no digits. The number returned is that value
  rounded to a double (an infinity for a long digit string), and NaN for no digits.
\<close>

definition parseInt_string :: "string \<Rightarrow> int option" where
  "parseInt_string inputString =
     (let S = dropWhile isStrWhiteSpace inputString;
          neg = (S \<noteq> [] \<and> hd S = CHR ''-'');
          S1 = (if S \<noteq> [] \<and> (hd S = CHR ''+'' \<or> hd S = CHR ''-'') then tl S else S);
          hex = (take 2 S1 = ''0x'' \<or> take 2 S1 = ''0X'');
          R = (if hex then 16 else 10);
          S2 = (if hex then drop 2 S1 else S1);
          Z = takeWhile (isRadixDigit R) S2
      in if Z = [] then None
         else Some ((if neg then - 1 else 1) * int (radixValue R Z)))"

definition to_number :: "int option \<Rightarrow> number" where
  "to_number m = (case m of None \<Rightarrow> NaN | Some n \<Rightarrow> fl (of_int n))"

definition parseInt :: "json option \<Rightarrow> js_error + number" where
  "parseInt v =
     (case v of
        None \<Rightarrow> Inr NaN
      | Some j \<Rightarrow>
          (case ToString j of
             Inl e \<Rightarrow> Inl e
           | Inr s \<Rightarrow> Inr (to_number (parseInt_string s))))"

section \<open>TrafficCalculator.js\<close>

record traffic =
  vehicles :: number
  heavyVehicles :: number

definition calculateDemand :: "number \<Rightarrow> number \<Rightarrow> number" where
  "calculateDemand vehicleCount heavyVehicleCount =
     (let normalDemand = fmul vehicleCount NORMAL_VEHICLE;
          heavyDemand = fmul heavyVehicleCount HEAVY_VEHICLE
      in fadd normalDemand heavyDemand)"

text \<open>\<open>Math.max(0, Number(d) || 0)\<close> on a number.\<close>

definition nonneg :: "number \<Rightarrow> number" where
  "nonneg d = Math_max (Fin 0) (or_zero d)"

text \<open>
  The local variables \<open>pair1Demand\<close> (the pair the duration is computed for) and
  \<open>pair2Demand\<close> (the other pair) of \<open>calculateGreenDuration\<close>.
\<close>

definition pair1Demand :: "number \<Rightarrow> number \<Rightarrow> number \<Rightarrow> number \<Rightarrow> phase \<Rightarrow> number" where
  "pair1Demand demandA demandB demandC demandD ph =
     (if ph = PHASE_AC_GREEN \<or> ph = PHASE_AC_YELLOW
      then fadd (nonneg demandA) (nonneg demandC)
      else fadd (nonneg demandB) (nonneg demandD))"

definition pair2Demand :: "number \<Rightarrow> number \<Rightarrow> number \<Rightarrow> number \<Rightarrow> phase \<Rightarrow> number" where
  "pair2Demand demandA demandB demandC demandD ph =
     (if ph = PHASE_AC_GREEN \<or> ph = PHASE_AC_YELLOW
      then fadd (nonneg demandB) (nonneg demandD)
      else fadd (nonneg demandA) (nonneg demandC))"

text \<open>
  The expression \<open>MIN_GREEN + (timeRange * pair1Ratio * 0.8)\<close>, from the two pair
  demands; the literal \<open>0.8\<close> is the double nearest to 8/10.
\<close>

definition greenDuration :: "number \<Rightarrow> number \<Rightarrow> number" where
  "greenDuration p1 p2 =
     (let totalDemand = fadd p1 p2;
          pair1Ratio = fdiv p1 totalDemand;
          timeRange = fsub MAX_GREEN MIN_GREEN
      in fadd MIN_GREEN (fmul (fmul timeRange pair1Ratio) (fl (8 / 10))))"

definition calculateGreenDuration ::
  "number \<Rightarrow> number \<Rightarrow> number \<Rightarrow> number \<Rightarrow> phase \<Rightarrow> number" where
  "calculateGreenDuration demandA demandB demandC demandD ph =
     (let p1 = pair1Demand demandA demandB demandC demandD ph;
          p2 = pair2Demand demandA demandB demandC demandD ph;
          totalDemand = fadd p1 p2
      in if strict_eq totalDemand (Fin 0) then MIN_GREEN
         else Math_round (greenDuration p1 p2))"

definition calculateAllDemands :: "(route \<Rightarrow> traffic) \<Rightarrow> route \<Rightarrow> number" where
  "calculateAllDemands trafficData r =
     calculateDemand (vehicles (trafficData r)) (heavyVehicles (trafficData r))"

section \<open>TrafficSignalController.js\<close>

text \<open>
  The controller object. A reading of the clock (\<open>Date.now()\<close>) is an integer number of
  milliseconds and an argument of the operation that reads it; as a number it is the
  double nearest to it (the integer itself, for every time value, which is at most
  8.64e15 in absolute value). The logger has no effect on the state and is left out.
\<close>

definition time_value :: "int \<Rightarrow> number" where
  "time_value t = fl (of_int t)"

record controller =
  signalState :: "route \<Rightarrow> signal"
  trafficData :: "route \<Rightarrow> traffic"
  currentPhase :: phase
  phaseStartTime :: int
  currentPhaseDuration :: number
  yellowTimeRemaining :: number
  isInYellow :: bool
  lastBroadcastState :: string

definition signal_name :: "signal \<Rightarrow> string" where
  "signal_name c = (case c of GREEN \<Rightarrow> ''GREEN'' | YELLOW \<Rightarrow> ''YELLOW'' | RED \<Rightarrow> ''RED'')"

definition quoted :: "string \<Rightarrow> string" where
  "quoted s = CHR 0x22 # s @ [CHR 0x22]"

text \<open>
  \<open>JSON.stringify(this.signalState)\<close>: the object always has the four keys, created in
  the order A, B, C, D.
\<close>

definition JSON_stringify :: "(route \<Rightarrow> signal) \<Rightarrow> string" where
  "JSON_stringify st =
     ''{'' @ quoted ''A'' @ '':'' @ quoted (signal_name (st A)) @ '','' @
             quoted ''B'' @ '':'' @ quoted (signal_name (st B)) @ '','' @
             quoted ''C'' @ '':'' @ quoted (signal_name (st C)) @ '','' @
             quoted ''D'' @ '':'' @ quoted (signal_name (st D)) @ ''}''"

definition all_red :: "route \<Rightarrow> signal" where
  "all_red = (\<lambda>r. RED)"

definition no_traffic :: "route \<Rightarrow> traffic" where
  "no_traffic = (\<lambda>r. \<lparr>vehicles = Fin 0, heavyVehicles = Fin 0\<rparr>)"

definition constructor :: "int \<Rightarrow> controller" where
  "constructor now =
     \<lparr>signalState = all_red,
      trafficData = no_traffic,
      currentPhase = PHASE_AC_GREEN,
      phaseStartTime = now,
      currentPhaseDuration = MIN_GREEN,
      yellowTimeRemaining = Fin 0,
      isInYellow = False,
      lastBroadcastState = JSON_stringify all_red\<rparr>"

definition route_of :: "string \<Rightarrow> route option" where
  "route_of s =
     (if s = ''A'' then Some A else if s = ''B'' then Some B
      else if s = ''C'' then Some C else if s = ''D'' then Some D else None)"

definition route_name :: "route \<Rightarrow> string" where
  "route_name r = (case r of A \<Rightarrow> ''A'' | B \<Rightarrow> ''B'' | C \<Rightarrow> ''C'' | D \<Rightarrow> ''D'')"

text \<open>
  \<open>updateTrafficData(route, vehicles, heavyVehicles)\<close>: an unknown route throws, and so
  does a count whose conversion to a string throws; nothing is assigned then. A count is
  stored as \<open>Math.max(0, parseInt(count) || 0)\<close>.
\<close>

definition updateTrafficData ::
  "string \<Rightarrow> json option \<Rightarrow> json option \<Rightarrow> controller \<Rightarrow> js_error + controller" where
  "updateTrafficData rname vehicles' heavyVehicles' s =
     (case route_of rname of
        None \<Rightarrow> Inl (Error (''Invalid route: '' @ rname))
      | Some r \<Rightarrow>
          (case parseInt vehicles' of
             Inl e \<Rightarrow> Inl e
           | Inr v \<Rightarrow>
               (case parseInt heavyVehicles' of
                  Inl e \<Rightarrow> Inl e
                | Inr h \<Rightarrow>
                    Inr (s\<lparr>trafficData := (trafficData s)
                           (r := \<lparr>vehicles = Math_max (Fin 0) (or_zero v),
                                  heavyVehicles = Math_max (Fin 0) (or_zero h)\<rparr>)\<rparr>))))"

definition calculateDemands :: "controller \<Rightarrow> route \<Rightarrow> number" where
  "calculateDemands s = calculateAllDemands (trafficData s)"

definition applyPhaseSignals :: "controller \<Rightarrow> controller" where
  "applyPhaseSignals s =
     s\<lparr>signalState :=
         (if currentPhase s = PHASE_AC_GREEN then all_red(A := GREEN, C := GREEN)
          else if currentPhase s = PHASE_AC_YELLOW then all_red(A := YELLOW, C := YELLOW)
          else if currentPhase s = PHASE_BD_GREEN then all_red(B := GREEN, D := GREEN)
          else all_red(B := YELLOW, D := YELLOW))\<rparr>"

definition executePhaseTransition :: "int \<Rightarrow> controller \<Rightarrow> controller" where
  "executePhaseTransition now s =
     (let demands = calculateDemands s;
          demandA = demands A; demandB = demands B;
          demandC = demands C; demandD = demands D;
          nextPhase =
            (if isInYellow s
             then (if currentPhase s = PHASE_AC_YELLOW then PHASE_BD_GREEN else PHASE_AC_GREEN)
             else (if currentPhase s = PHASE_AC_GREEN then PHASE_AC_YELLOW else PHASE_BD_YELLOW));
          nextPhaseDuration =
            (if isInYellow s
             then calculateGreenDuration demandA demandB demandC demandD nextPhase
             else YELLOW_DURATION)
      in applyPhaseSignals
           (s\<lparr>isInYellow := \<not> isInYellow s,
              currentPhase := nextPhase,
              currentPhaseDuration := nextPhaseDuration,
              phaseStartTime := now\<rparr>))"

text \<open>
  \<open>Math.round((Date.now() - this.phaseStartTime) / 1000)\<close>. \<open>updatePhase()\<close> reads
  the clock (\<open>now\<close>), and the transition it may execute reads it again (\<open>now'\<close>).
\<close>

definition elapsedTime :: "int \<Rightarrow> controller \<Rightarrow> number" where
  "elapsedTime now s =
     Math_round (fdiv (fsub (time_value now) (time_value (phaseStartTime s))) (Fin 1000))"

definition updatePhase :: "int \<Rightarrow> int \<Rightarrow> controller \<Rightarrow> bool \<times> controller" where
  "updatePhase now now' s =
     (if ge (elapsedTime now s) (currentPhaseDuration s)
      then (True, executePhaseTransition now' s)
      else (False, s))"

definition hasStateChanged :: "controller \<Rightarrow> bool \<times> controller" where
  "hasStateChanged s =
     (let currentState = JSON_stringify (signalState s);
          hasChanged = (currentState \<noteq> lastBroadcastState s)
      in (hasChanged, if hasChanged then s\<lparr>lastBroadcastState := currentState\<rparr> else s))"

definition reset :: "int \<Rightarrow> controller \<Rightarrow> controller" where
  "reset now s =
     applyPhaseSignals
       (s\<lparr>signalState := all_red,
          trafficData := no_traffic,
          currentPhase := PHASE_AC_GREEN,
          phaseStartTime := now,
          currentPhaseDuration := MIN_GREEN,
          isInYellow := False,
          lastBroadcastState := JSON_stringify all_red\<rparr>)"

text \<open>\<open>getPhaseInfo()\<close>; the time stamp is the clock reading, not its ISO text.\<close>

record phase_info =
  pi_phase :: phase
  pi_signalState :: "route \<Rightarrow> signal"
  pi_elapsedSeconds :: number
  pi_totalDurationSeconds :: number
  pi_remainingSeconds :: number
  pi_isYellow :: bool
  pi_timestamp :: int

definition getPhaseInfo :: "int \<Rightarrow> controller \<Rightarrow> phase_info" where
  "getPhaseInfo now s =
     \<lparr>pi_phase = currentPhase s,
      pi_signalState = signalState s,
      pi_elapsedSeconds = elapsedTime now s,
      pi_totalDurationSeconds = currentPhaseDuration s,
      pi_remainingSeconds = Math_max (Fin 0) (fsub (currentPhaseDuration s) (elapsedTime now s)),
      pi_isYellow = isInYellow s,
      pi_timestamp = now\<rparr>"

section \<open>Frames\<close>

text \<open>
  What \<open>formatMessage(data, type)\<close> and \<open>formatError(error, error_code)\<close>
  serialise, before \<open>JSON.stringify\<close>: the type, the time stamp and the data.
\<close>

datatype payload =
    PWelcome nat
  | PAccepted nat
  | PSubscribed "route list"
  | PUnsubscribed "route list"
  | PStatus phase_info "route \<Rightarrow> traffic" "route \<Rightarrow> number" "route \<Rightarrow> signal"
  | PPhase phase_info
  | PTraffic "route \<Rightarrow> traffic" "route \<Rightarrow> number"

datatype frame =
    Frame msg_type int payload
  | ErrorFrame int string string

definition formatMessage :: "int \<Rightarrow> payload \<Rightarrow> msg_type \<Rightarrow> frame" where
  "formatMessage now d t = Frame t now d"

definition formatError :: "int \<Rightarrow> string \<Rightarrow> string \<Rightarrow> frame" where
  "formatError now err error_code = ErrorFrame now err error_code"

definition is_error_frame :: "frame \<Rightarrow> bool" where
  "is_error_frame f = (case f of ErrorFrame t e c \<Rightarrow> True | Frame ty t d \<Rightarrow> False)"

section \<open>ClientManager.js\<close>

text \<open>
  A socket is what was written to it, in order, and whether a write reports an error to
  its callback. The callback of \<open>socket.write\<close> runs here as part of the write.
\<close>

record socket =
  written :: "frame list"
  writeFails :: bool
  destroyed :: bool

record client =
  cid :: nat
  sock :: socket
  subscribedRoutes :: "route list"
  isActive :: bool
  createdAt :: int
  lastMessageAt :: int
  bufferedData :: string

definition new_client :: "nat \<Rightarrow> socket \<Rightarrow> int \<Rightarrow> client" where
  "new_client i so now =
     \<lparr>cid = i, sock = so, subscribedRoutes = [], isActive = True,
      createdAt = now, lastMessageAt = now, bufferedData = []\<rparr>"

text \<open>\<open>Set.add\<close> and \<open>Set.delete\<close> on a set kept in insertion order.\<close>

definition Set_add :: "'a \<Rightarrow> 'a list \<Rightarrow> 'a list" where
  "Set_add x xs = (if x \<in> set xs then xs else xs @ [x])"

definition Set_delete :: "'a \<Rightarrow> 'a list \<Rightarrow> 'a list" where
  "Set_delete x xs = filter (\<lambda>y. y \<noteq> x) xs"

definition subscribeToRoutes :: "route list \<Rightarrow> client \<Rightarrow> client" where
  "subscribeToRoutes rs c = c\<lparr>subscribedRoutes := foldl (\<lambda>acc r. Set_add r acc) (subscribedRoutes c) rs\<rparr>"

definition unsubscribeFromRoutes :: "route list \<Rightarrow> client \<Rightarrow> client" where
  "unsubscribeFromRoutes rs c =
     c\<lparr>subscribedRoutes := foldl (\<lambda>acc r. Set_delete r acc) (subscribedRoutes c) rs\<rparr>"

definition isSubscribedTo :: "route \<Rightarrow> client \<Rightarrow> bool" where
  "isSubscribedTo r c = (r \<in> set (subscribedRoutes c))"

definition getSubscriptions :: "client \<Rightarrow> route list" where
  "getSubscriptions c = subscribedRoutes c"

definition sendMessage :: "frame \<Rightarrow> client \<Rightarrow> bool \<times> client" where
  "sendMessage message c =
     (if \<not> isActive c then (False, c)
      else if writeFails (sock c) then (False, c\<lparr>isActive := False\<rparr>)
      else (True, c\<lparr>sock := (sock c)\<lparr>written := written (sock c) @ [message]\<rparr>\<rparr>))"

definition updateActivity :: "int \<Rightarrow> client \<Rightarrow> client" where
  "updateActivity now c = c\<lparr>lastMessageAt := now\<rparr>"

definition close :: "client \<Rightarrow> client" where
  "close c = c\<lparr>isActive := False, sock := (sock c)\<lparr>destroyed := True\<rparr>\<rparr>"

text \<open>
  The manager's \<open>Map\<close> from client ids to clients, in insertion order. The clients are
  objects the map holds by reference, so a change of a client is a change of its entry.
\<close>

record manager =
  clients :: "(nat \<times> client) list"
  nextClientId :: nat

fun Map_set :: "nat \<Rightarrow> client \<Rightarrow> (nat \<times> client) list \<Rightarrow> (nat \<times> client) list" where
  "Map_set k v [] = [(k, v)]"
| "Map_set k v (e # es) = (if fst e = k then (k, v) # es else e # Map_set k v es)"

definition Map_delete :: "nat \<Rightarrow> (nat \<times> client) list \<Rightarrow> (nat \<times> client) list" where
  "Map_delete k es = filter (\<lambda>e. fst e \<noteq> k) es"

definition new_manager :: manager where
  "new_manager = \<lparr>clients = [], nextClientId = 1\<rparr>"

definition addClient :: "socket \<Rightarrow> int \<Rightarrow> manager \<Rightarrow> client \<times> manager" where
  "addClient so now m =
     (let clientId = nextClientId m;
          c = new_client clientId so now
      in (c, m\<lparr>nextClientId := clientId + 1, clients := Map_set clientId c (clients m)\<rparr>))"

definition getClient :: "nat \<Rightarrow> manager \<Rightarrow> client option" where
  "getClient clientId m = map_of (clients m) clientId"

definition removeClient :: "nat \<Rightarrow> manager \<Rightarrow> bool \<times> manager" where
  "removeClient clientId m =
     (case getClient clientId m of
        Some c \<Rightarrow> (True, m\<lparr>clients := Map_delete clientId (clients m)\<rparr>)
      | None \<Rightarrow> (False, m))"

definition getActiveClients :: "manager \<Rightarrow> client list" where
  "getActiveClients m = filter isActive (map snd (clients m))"

definition subscribeClient :: "nat \<Rightarrow> route list \<Rightarrow> manager \<Rightarrow> bool \<times> manager" where
  "subscribeClient clientId rs m =
     (case getClient clientId m of
        None \<Rightarrow> (False, m)
      | Some c \<Rightarrow> (True, m\<lparr>clients := Map_set clientId (subscribeToRoutes rs c) (clients m)\<rparr>))"

definition unsubscribeClient :: "nat \<Rightarrow> route list \<Rightarrow> manager \<Rightarrow> bool \<times> manager" where
  "unsubscribeClient clientId rs m =
     (case getClient clientId m of
        None \<Rightarrow> (False, m)
      | Some c \<Rightarrow> (True, m\<lparr>clients := Map_set clientId (unsubscribeFromRoutes rs c) (clients m)\<rparr>))"

text \<open>\<open>getSubscribedClients(routes = null)\<close>; \<open>None\<close> is \<open>null\<close>.\<close>

definition getSubscribedClients :: "route list option \<Rightarrow> manager \<Rightarrow> nat list" where
  "getSubscribedClients rs m =
     map cid
       (filter
          (\<lambda>c. if \<not> isActive c then False
               else (case rs of
                       None \<Rightarrow> length (getSubscriptions c) > 0
                     | Some l \<Rightarrow> list_ex (\<lambda>r. isSubscribedTo r c) l))
          (map snd (clients m)))"

text \<open>One turn of the loop of \<open>broadcastMessage\<close> over the target ids.\<close>

definition deliver :: "frame \<Rightarrow> bool list \<times> manager \<Rightarrow> nat \<Rightarrow> bool list \<times> manager" where
  "deliver message acc clientId =
     (case getClient clientId (snd acc) of
        None \<Rightarrow> acc
      | Some c \<Rightarrow>
          (if isActive c
           then (let (ok, c') = sendMessage message c
                 in (fst acc @ [ok], (snd acc)\<lparr>clients := Map_set clientId c' (clients (snd acc))\<rparr>))
           else acc))"

text \<open>
  \<open>broadcastMessage(message, routes = null, excludeClientIds = [])\<close>: the ids the
  message goes to (\<open>targetClientIds\<close>, after the exclusion), and the result
  \<open>(targetCount, successCount)\<close> with the manager after the writes.
\<close>

definition targetClientIds :: "route list option \<Rightarrow> nat list \<Rightarrow> manager \<Rightarrow> nat list" where
  "targetClientIds rs excludeClientIds m =
     filter (\<lambda>i. i \<notin> set excludeClientIds)
       (case rs of
          Some l \<Rightarrow> getSubscribedClients (Some l) m
        | None \<Rightarrow> map cid (getActiveClients m))"

definition broadcastMessage ::
  "frame \<Rightarrow> route list option \<Rightarrow> nat list \<Rightarrow> manager \<Rightarrow> (nat \<times> nat) \<times> manager" where
  "broadcastMessage message rs excludeClientIds m =
     (let targets = targetClientIds rs excludeClientIds m;
          (results, m') = foldl (deliver message) ([], m) targets
      in ((length targets, length (filter (\<lambda>r. r) results)), m'))"

definition cleanupInactiveClients :: "int \<Rightarrow> int \<Rightarrow> manager \<Rightarrow> nat \<times> manager" where
  "cleanupInactiveClients inactivityThreshold now m =
     (let gone = filter (\<lambda>e. if isActive (snd e) then now - lastMessageAt (snd e) > inactivityThreshold
                              else True)
                   (clients m)
      in (length gone, foldl (\<lambda>acc e. snd (removeClient (fst e) acc)) m gone))"

section \<open>MessageHandler.js\<close>

text \<open>
  Reading a property whose name no built-in prototype defines (\<open>type\<close>, \<open>data\<close>,
  \<open>routes\<close>, \<open>queryType\<close>, a route, \<open>vehicles\<close>, \<open>heavyVehicles\<close>): the own
  property of an object, \<open>undefined\<close> on an array or a primitive value, and a TypeError
  on \<open>null\<close>.
\<close>

definition Get :: "json \<Rightarrow> string \<Rightarrow> js_error + json option" where
  "Get v k =
     (case v of
        JNull \<Rightarrow> Inl TypeError
      | JObj kvs \<Rightarrow> Inr (map_of kvs k)
      | _ \<Rightarrow> Inr None)"

definition truthy :: "json option \<Rightarrow> bool" where
  "truthy v =
     (case v of
        None \<Rightarrow> False
      | Some JNull \<Rightarrow> False
      | Some (JBool b) \<Rightarrow> b
      | Some (JNum n) \<Rightarrow> n \<noteq> NaN \<and> n \<noteq> Fin 0
      | Some (JStr s) \<Rightarrow> s \<noteq> []
      | Some (JArr xs) \<Rightarrow> True
      | Some (JObj kvs) \<Rightarrow> True)"

definition typeof :: "json option \<Rightarrow> string" where
  "typeof v =
     (case v of
        None \<Rightarrow> ''undefined''
      | Some JNull \<Rightarrow> ''object''
      | Some (JBool b) \<Rightarrow> ''boolean''
      | Some (JNum n) \<Rightarrow> ''number''
      | Some (JStr s) \<Rightarrow> ''string''
      | Some (JArr xs) \<Rightarrow> ''object''
      | Some (JObj kvs) \<Rightarrow> ''object'')"

text \<open>
  The call \<open>data.hasOwnProperty(k)\<close>. The method is inherited from
  \<open>Object.prototype\<close>; an own property of the object named \<open>hasOwnProperty\<close> hides
  it, and calling a parsed value throws a TypeError. The own properties of an array are
  its indices and \<open>length\<close>.
\<close>

definition call_hasOwnProperty :: "json \<Rightarrow> string \<Rightarrow> js_error + bool" where
  "call_hasOwnProperty v k =
     (case v of
        JNull \<Rightarrow> Inl TypeError
      | JObj kvs \<Rightarrow>
          (if map_of kvs ''hasOwnProperty'' \<noteq> None then Inl TypeError
           else Inr (map_of kvs k \<noteq> None))
      | JArr xs \<Rightarrow> Inr (k = ''length'' \<or> k \<in> set (map digits10 [0..<length xs]))
      | JStr x \<Rightarrow> Inr (k = ''length'' \<or> k \<in> set (map digits10 [0..<length x]))
      | _ \<Rightarrow> Inr False)"

definition trim :: "string \<Rightarrow> string" where
  "trim s = rev (dropWhile isStrWhiteSpace (rev (dropWhile isStrWhiteSpace s)))"

text \<open>
  \<open>parseMessage(rawData)\<close>; \<open>None\<close> is \<open>null\<close>. \<open>JSON.parse\<close> is an argument:
  the value it returns for a text, or \<open>None\<close> where it throws a SyntaxError. The
  \<open>try\<close> block catches that error and the TypeError of reading \<open>type\<close> from
  \<open>null\<close>.
\<close>

definition parseMessage :: "(string \<Rightarrow> json option) \<Rightarrow> string \<Rightarrow> json option" where
  "parseMessage JSON_parse rawData =
     (if rawData = [] then None
      else
        (let trimmed = trim rawData in
         if trimmed = [] then None
         else
           (case JSON_parse trimmed of
              None \<Rightarrow> None
            | Some message \<Rightarrow>
                (case Get message ''type'' of
                   Inl e \<Rightarrow> None
                 | Inr t \<Rightarrow> if \<not> truthy t then None else Some message))))"

text \<open>A validation result: \<open>{valid: true, ...}\<close> or \<open>{valid: false, error}\<close>.\<close>

datatype 'a validation = Valid 'a | NotValid string

text \<open>
  The body of the loop of \<open>validateCameraUpdate\<close> for one route, from the validated
  data so far: an exception, or a validation result that ends the loop, or the validated
  data after the route.
\<close>

definition validateRoute ::
  "json \<Rightarrow> route \<Rightarrow> (route \<rightharpoonup> traffic) \<Rightarrow> js_error + (route \<rightharpoonup> traffic) validation" where
  "validateRoute data' r validatedData =
     (case call_hasOwnProperty data' (route_name r) of
        Inl e \<Rightarrow> Inl e
      | Inr False \<Rightarrow> Inr (Valid validatedData)
      | Inr True \<Rightarrow>
          (case Get data' (route_name r) of
             Inl e \<Rightarrow> Inl e
           | Inr routeData \<Rightarrow>
               (if typeof routeData \<noteq> ''object''
                then Inr (NotValid (''Route '' @ route_name r @ '' data must be an object''))
                else
                  (case routeData of
                     None \<Rightarrow> Inl TypeError
                   | Some rd \<Rightarrow>
                       (case Get rd ''vehicles'' of
                          Inl e \<Rightarrow> Inl e
                        | Inr rv \<Rightarrow>
                            (case parseInt rv of
                               Inl e \<Rightarrow> Inl e
                             | Inr v \<Rightarrow>
                                 (case Get rd ''heavyVehicles'' of
                                    Inl e \<Rightarrow> Inl e
                                  | Inr rh \<Rightarrow>
                                      (case parseInt rh of
                                         Inl e \<Rightarrow> Inl e
                                       | Inr h \<Rightarrow>
                                           (if isNaN v \<and> rv \<noteq> None
                                            then Inr (NotValid (''Route '' @ route_name r @
                                                   '' vehicles must be a valid number''))
                                            else if isNaN h \<and> rh \<noteq> None
                                            then Inr (NotValid (''Route '' @ route_name r @
                                                   '' heavyVehicles must be a valid number''))
                                            else Inr (Valid (validatedData(r \<mapsto>
                                                   \<lparr>vehicles =
                                                      (if isNaN v then Fin 0 else Math_max (Fin 0) v),
                                                    heavyVehicles =
                                                      (if isNaN h then Fin 0
                                                       else Math_max (Fin 0) h)\<rparr>))))))))))))"

fun validateRoutes ::
  "json \<Rightarrow> route list \<Rightarrow> (route \<rightharpoonup> traffic) \<Rightarrow> js_error + (route \<rightharpoonup> traffic) validation" where
  "validateRoutes data' [] validatedData = Inr (Valid validatedData)"
| "validateRoutes data' (r # rs) validatedData =
     (case validateRoute data' r validatedData of
        Inl e \<Rightarrow> Inl e
      | Inr (NotValid err) \<Rightarrow> Inr (NotValid err)
      | Inr (Valid validatedData') \<Rightarrow> validateRoutes data' rs validatedData')"

definition validateCameraUpdate :: "json \<Rightarrow> js_error + (route \<rightharpoonup> traffic) validation" where
  "validateCameraUpdate message =
     (case Get message ''data'' of
        Inl e \<Rightarrow> Inl e
      | Inr d \<Rightarrow>
          (if \<not> truthy d then Inr (NotValid ''Camera update requires \"data\" object'')
           else if typeof d \<noteq> ''object''
           then Inr (NotValid ''Camera update requires \"data\" object'')
           else (case d of
                   None \<Rightarrow> Inl TypeError
                 | Some data' \<Rightarrow> validateRoutes data' ROUTES Map.empty)))"

text \<open>
  The loop over the elements of \<open>message.routes\<close>: \<open>Object.values(ROUTES).includes\<close>
  compares with \<open>===\<close>, so a route is one of the four strings. The error message
  converts the element to a string, which may throw.
\<close>

definition route_of_json :: "json \<Rightarrow> route option" where
  "route_of_json v = (case v of JStr s \<Rightarrow> route_of s | _ \<Rightarrow> None)"

fun checkRoutes :: "string \<Rightarrow> json list \<Rightarrow> js_error + route list validation" where
  "checkRoutes suffix [] = Inr (Valid [])"
| "checkRoutes suffix (x # xs) =
     (case route_of_json x of
        None \<Rightarrow>
          (case ToString x of
             Inl e \<Rightarrow> Inl e
           | Inr t \<Rightarrow> Inr (NotValid (''Invalid route: '' @ t @ suffix)))
      | Some r \<Rightarrow>
          (case checkRoutes suffix xs of
             Inl e \<Rightarrow> Inl e
           | Inr (NotValid err) \<Rightarrow> Inr (NotValid err)
           | Inr (Valid rs) \<Rightarrow> Inr (Valid (r # rs))))"

definition validateRoutesField ::
  "string \<Rightarrow> string \<Rightarrow> json \<Rightarrow> js_error + route list validation" where
  "validateRoutesField missing suffix message =
     (case Get message ''routes'' of
        Inl e \<Rightarrow> Inl e
      | Inr rs \<Rightarrow>
          (if \<not> truthy rs then Inr (NotValid missing)
           else (case rs of
                   Some (JStr x) \<Rightarrow>
                     (if x = ''all'' then Inr (Valid ROUTES)
                      else Inr (NotValid ''Routes must be an array or \"all\"''))
                 | Some (JArr xs) \<Rightarrow> checkRoutes suffix xs
                 | _ \<Rightarrow> Inr (NotValid ''Routes must be an array or \"all\"''))))"

definition validateSubscribe :: "json \<Rightarrow> js_error + route list validation" where
  "validateSubscribe message =
     validateRoutesField ''Subscribe requires \"routes\" field (array or \"all\")''
       ''. Valid routes are: A, B, C, D'' message"

definition validateUnsubscribe :: "json \<Rightarrow> js_error + route list validation" where
  "validateUnsubscribe message =
     validateRoutesField ''Unsubscribe requires \"routes\" field (array or \"all\")'' [] message"

definition validateQuery :: "json \<Rightarrow> js_error + string validation" where
  "validateQuery message =
     (case Get message ''queryType'' of
        Inl e \<Rightarrow> Inl e
      | Inr q \<Rightarrow>
          (let queryType = (if truthy q then q else Some (JStr ''status'')) in
           (case queryType of
              Some (JStr x) \<Rightarrow>
                (if x \<in> set [''status'', ''phase'', ''traffic''] then Inr (Valid x)
                 else Inr (NotValid ''Invalid query type. Valid types are: status, phase, traffic''))
            | _ \<Rightarrow> Inr (NotValid ''Invalid query type. Valid types are: status, phase, traffic''))))"

text \<open>The object \<open>processIncomingMessage\<close> returns; a field left out is \<open>None\<close>.\<close>

record incoming =
  isValid :: bool
  in_type :: "msg_type option"
  in_data :: "(route \<rightharpoonup> traffic) option"
  in_routes :: "route list option"
  in_queryType :: "string option"
  in_error :: "string option"

definition no_incoming :: incoming where
  "no_incoming =
     \<lparr>isValid = False, in_type = None, in_data = None, in_routes = None,
      in_queryType = None, in_error = None\<rparr>"

definition processIncomingMessage ::
  "(string \<Rightarrow> json option) \<Rightarrow> string \<Rightarrow> js_error + incoming" where
  "processIncomingMessage JSON_parse rawData =
     (case parseMessage JSON_parse rawData of
        None \<Rightarrow> Inr (no_incoming\<lparr>in_error := Some ''Failed to parse message''\<rparr>)
      | Some message \<Rightarrow>
          (case Get message ''type'' of
             Inl e \<Rightarrow> Inl e
           | Inr messageType \<Rightarrow>
               (if messageType = Some (JStr ''CAMERA_UPDATE'') then
                  (case validateCameraUpdate message of
                     Inl e \<Rightarrow> Inl e
                   | Inr (Valid d) \<Rightarrow>
                       Inr (no_incoming\<lparr>isValid := True, in_type := Some CAMERA_UPDATE,
                                         in_data := Some d\<rparr>)
                   | Inr (NotValid err) \<Rightarrow>
                       Inr (no_incoming\<lparr>in_type := Some CAMERA_UPDATE, in_error := Some err\<rparr>))
                else if messageType = Some (JStr ''SUBSCRIBE'') then
                  (case validateSubscribe message of
                     Inl e \<Rightarrow> Inl e
                   | Inr (Valid rs) \<Rightarrow>
                       Inr (no_incoming\<lparr>isValid := True, in_type := Some SUBSCRIBE,
                                         in_routes := Some rs\<rparr>)
                   | Inr (NotValid err) \<Rightarrow>
                       Inr (no_incoming\<lparr>in_type := Some SUBSCRIBE, in_error := Some err\<rparr>))
                else if messageType = Some (JStr ''UNSUBSCRIBE'') then
                  (case validateUnsubscribe message of
                     Inl e \<Rightarrow> Inl e
                   | Inr (Valid rs) \<Rightarrow>
                       Inr (no_incoming\<lparr>isValid := True, in_type := Some UNSUBSCRIBE,
                                         in_routes := Some rs\<rparr>)
                   | Inr (NotValid err) \<Rightarrow>
                       Inr (no_incoming\<lparr>in_type := Some UNSUBSCRIBE, in_error := Some err\<rparr>))
                else if messageType = Some (JStr ''QUERY'') then
                  (case validateQuery message of
                     Inl e \<Rightarrow> Inl e
                   | Inr (Valid q) \<Rightarrow>
                       Inr (no_incoming\<lparr>isValid := True, in_type := Some QUERY,
                                         in_queryType := Some q\<rparr>)
                   | Inr (NotValid err) \<Rightarrow>
                       Inr (no_incoming\<lparr>in_type := Some QUERY, in_error := Some err\<rparr>))
                else
                  (case messageType of
                     None \<Rightarrow> Inr (no_incoming\<lparr>in_error := Some ''Unknown message type: undefined''\<rparr>)
                   | Some t \<Rightarrow>
                       (case ToString t of
                          Inl e \<Rightarrow> Inl e
                        | Inr x \<Rightarrow>
                            Inr (no_incoming\<lparr>in_error := Some (''Unknown message type: '' @ x)\<rparr>))))))"

section \<open>server.js\<close>

text \<open>
  The server: the controller and the client manager. A handler reads the clock once,
  for the time stamps of the frames it formats.
\<close>

record server =
  signalController :: controller
  clientManager :: manager

definition new_server :: "int \<Rightarrow> server" where
  "new_server now = \<lparr>signalController = constructor now, clientManager = new_manager\<rparr>"

definition getStatus :: "int \<Rightarrow> controller \<Rightarrow> payload" where
  "getStatus now s =
     PStatus (getPhaseInfo now s) (trafficData s) (calculateDemands s) (signalState s)"

text \<open>\<open>client.sendMessage(message)\<close> for the client of an id, in the manager's map.\<close>

definition send_to :: "nat \<Rightarrow> frame \<Rightarrow> server \<Rightarrow> server" where
  "send_to clientId message srv =
     (case getClient clientId (clientManager srv) of
        None \<Rightarrow> srv
      | Some c \<Rightarrow>
          srv\<lparr>clientManager := (clientManager srv)
                \<lparr>clients := Map_set clientId (snd (sendMessage message c))
                               (clients (clientManager srv))\<rparr>\<rparr>)"

text \<open>
  \<open>handleNewConnection(socket)\<close>: the welcome frame is written to the socket
  directly, with no callback.
\<close>

definition handleNewConnection :: "socket \<Rightarrow> int \<Rightarrow> server \<Rightarrow> nat \<times> server" where
  "handleNewConnection so now srv =
     (let (c, m) = addClient so now (clientManager srv);
          welcomeMsg = formatMessage now (PWelcome (cid c)) STATUS;
          c' = c\<lparr>sock := (sock c)\<lparr>written := written (sock c) @ [welcomeMsg]\<rparr>\<rparr>
      in (cid c, srv\<lparr>clientManager := m\<lparr>clients := Map_set (cid c) c' (clients m)\<rparr>\<rparr>))"

text \<open>
  The loop of \<open>handleCameraUpdate\<close> over the routes: the controller after the updates
  made, and the exception that ended the loop, if one did.
\<close>

fun updateRoutes ::
  "(route \<rightharpoonup> traffic) \<Rightarrow> route list \<Rightarrow> controller \<Rightarrow> js_error option \<times> controller" where
  "updateRoutes td [] s = (None, s)"
| "updateRoutes td (r # rs) s =
     (case td r of
        None \<Rightarrow> updateRoutes td rs s
      | Some t \<Rightarrow>
          (case updateTrafficData (route_name r) (Some (JNum (vehicles t)))
                  (Some (JNum (heavyVehicles t))) s of
             Inl e \<Rightarrow> (Some e, s)
           | Inr s' \<Rightarrow> updateRoutes td rs s'))"

definition error_message :: "js_error \<Rightarrow> string" where
  "error_message e = (case e of TypeError \<Rightarrow> ''TypeError'' | Error m \<Rightarrow> m)"

definition handleCameraUpdate :: "int \<Rightarrow> nat \<Rightarrow> (route \<rightharpoonup> traffic) \<Rightarrow> server \<Rightarrow> server" where
  "handleCameraUpdate now clientId td srv =
     (case getClient clientId (clientManager srv) of
        None \<Rightarrow> srv
      | Some c \<Rightarrow>
          (let (exn, s') = updateRoutes td ROUTES (signalController srv);
               srv' = srv\<lparr>signalController := s'\<rparr>
           in (case exn of
                 None \<Rightarrow>
                   send_to clientId
                     (formatMessage now
                        (PAccepted (length (filter (\<lambda>r. td r \<noteq> None) ROUTES))) STATUS) srv'
               | Some e \<Rightarrow>
                   send_to clientId
                     (formatError now (''Failed to process camera update: '' @ error_message e)
                        ''INVALID_MESSAGE'') srv')))"

definition handleSubscribe :: "int \<Rightarrow> nat \<Rightarrow> route list \<Rightarrow> server \<Rightarrow> server" where
  "handleSubscribe now clientId rs srv =
     (case getClient clientId (clientManager srv) of
        None \<Rightarrow> srv
      | Some c \<Rightarrow>
          (let (success, m) = subscribeClient clientId rs (clientManager srv);
               srv' = srv\<lparr>clientManager := m\<rparr>
           in if success
              then send_to clientId (formatMessage now (PSubscribed rs) STATUS) srv'
              else send_to clientId (formatError now ''Failed to subscribe'' ''INVALID_MESSAGE'') srv'))"

definition handleUnsubscribe :: "int \<Rightarrow> nat \<Rightarrow> route list \<Rightarrow> server \<Rightarrow> server" where
  "handleUnsubscribe now clientId rs srv =
     (case getClient clientId (clientManager srv) of
        None \<Rightarrow> srv
      | Some c \<Rightarrow>
          (let (success, m) = unsubscribeClient clientId rs (clientManager srv);
               srv' = srv\<lparr>clientManager := m\<rparr>
           in if success
              then send_to clientId (formatMessage now (PUnsubscribed rs) STATUS) srv'
              else send_to clientId (formatError now ''Failed to unsubscribe'' ''INVALID_MESSAGE'') srv'))"

definition handleQuery :: "int \<Rightarrow> nat \<Rightarrow> string \<Rightarrow> server \<Rightarrow> server" where
  "handleQuery now clientId queryType srv =
     (case getClient clientId (clientManager srv) of
        None \<Rightarrow> srv
      | Some c \<Rightarrow>
          (let s = signalController srv;
               responseData =
                 (if queryType = ''status'' then getStatus now s
                  else if queryType = ''phase'' then PPhase (getPhaseInfo now s)
                  else if queryType = ''traffic'' then PTraffic (trafficData s) (calculateDemands s)
                  else getStatus now s)
           in send_to clientId (formatMessage now responseData STATUS) srv))"

text \<open>
  \<open>processClientMessage(clientId, rawMessage)\<close>. Nothing in it catches an exception
  of \<open>processIncomingMessage\<close>: the exception leaves the handler (\<open>Inl\<close>) with the
  server as it was and nothing sent.
\<close>

definition processClientMessage ::
  "(string \<Rightarrow> json option) \<Rightarrow> int \<Rightarrow> nat \<Rightarrow> string \<Rightarrow> server \<Rightarrow> js_error + server" where
  "processClientMessage JSON_parse now clientId rawMessage srv =
     (case getClient clientId (clientManager srv) of
        None \<Rightarrow> Inr srv
      | Some c \<Rightarrow>
          (case processIncomingMessage JSON_parse rawMessage of
             Inl e \<Rightarrow> Inl e
           | Inr result \<Rightarrow>
               (if \<not> isValid result
                then Inr (send_to clientId
                       (formatError now (case in_error result of None \<Rightarrow> ''undefined'' | Some x \<Rightarrow> x)
                          ''INVALID_MESSAGE'') srv)
                else
                  (case (in_type result, in_data result, in_routes result, in_queryType result) of
                     (Some CAMERA_UPDATE, Some d, _, _) \<Rightarrow> Inr (handleCameraUpdate now clientId d srv)
                   | (Some SUBSCRIBE, _, Some rs, _) \<Rightarrow> Inr (handleSubscribe now clientId rs srv)
                   | (Some UNSUBSCRIBE, _, Some rs, _) \<Rightarrow> Inr (handleUnsubscribe now clientId rs srv)
                   | (Some QUERY, _, _, Some q) \<Rightarrow> Inr (handleQuery now clientId q srv)
                   | _ \<Rightarrow>
                       Inr (send_to clientId
                              (formatError now ''Unknown message type'' ''INVALID_MESSAGE'') srv)))))"

text \<open>The callbacks of the phase-update and the broadcast intervals.\<close>

definition phaseUpdateTick :: "int \<Rightarrow> int \<Rightarrow> server \<Rightarrow> server" where
  "phaseUpdateTick now now' srv =
     srv\<lparr>signalController := snd (updatePhase now now' (signalController srv))\<rparr>"

definition broadcastTick :: "int \<Rightarrow> server \<Rightarrow> server" where
  "broadcastTick now srv =
     (let (changed, s) = hasStateChanged (signalController srv) in
      if \<not> changed then srv\<lparr>signalController := s\<rparr>
      else
        (let currentState = getPhaseInfo now s;
             message = formatMessage now (PPhase currentState) STATUS
         in srv\<lparr>signalController := s,
                clientManager := snd (broadcastMessage message None [] (clientManager srv))\<rparr>))"

text \<open>The frames written to the socket of a client, and its subscriptions.\<close>

definition frames_of :: "nat \<Rightarrow> server \<Rightarrow> frame list" where
  "frames_of clientId srv =
     (case getClient clientId (clientManager srv) of
        None \<Rightarrow> []
      | Some c \<Rightarrow> written (sock c))"

definition subscriptions_of :: "nat \<Rightarrow> server \<Rightarrow> route list" where
  "subscriptions_of clientId srv =
     (case getClient clientId (clientManager srv) of
        None \<Rightarrow> []
      | Some c \<Rightarrow> subscribedRoutes c)"

section \<open>The reachable controller states, and the invariant of the signals\<close>

text \<open>
  The states of the controller from the constructor on, under the operations that change
  it: the phase update, a transition, a traffic update that returns, and the reset.
\<close>

inductive reachable :: "controller \<Rightarrow> bool" where
  r_constructor: "reachable (constructor now)"
| r_updatePhase: "reachable s \<Longrightarrow> reachable (snd (updatePhase now now' s))"
| r_transition: "reachable s \<Longrightarrow> reachable (executePhaseTransition now s)"
| r_traffic: "reachable s \<Longrightarrow> updateTrafficData rname v h s = Inr s' \<Longrightarrow> reachable s'"
| r_changed: "reachable s \<Longrightarrow> reachable (snd (hasStateChanged s))"
| r_reset: "reachable s \<Longrightarrow> reachable (reset now s)"

text \<open>
  Exactly one of the pairs A, C and B, D has both routes non-red, and both routes of the
  other pair are red.
\<close>

definition one_pair_open :: "(route \<Rightarrow> signal) \<Rightarrow> bool" where
  "one_pair_open st =
     ((st A \<noteq> RED \<and> st C \<noteq> RED \<and> st B = RED \<and> st D = RED) \<or>
      (st B \<noteq> RED \<and> st D \<noteq> RED \<and> st A = RED \<and> st C = RED))"

text \<open>
  The boundary of the current phase: the clock reading at which its duration has elapsed.
  There is none when the duration is not a finite number.
\<close>

definition boundary :: "controller \<Rightarrow> int option" where
  "boundary s =
     (case currentPhaseDuration s of
        Fin d \<Rightarrow> Some (phaseStartTime s + \<lfloor>1000 * d\<rfloor>)
      | _ \<Rightarrow> None)"

text \<open>
  Phase transitions taken at the boundary of each phase: the clock of \<open>updatePhase\<close>
  reads the boundary, and the transition reads the clock \<open>lag\<close> milliseconds later.
  Before each transition the traffic updates of the step are made (one that throws
  changes nothing). One call of \<open>updatePhase\<close> for each step of the list; the result
  lists, for each step, what the call returned and the phase after it, and there is no
  result when a phase has no boundary.
\<close>

fun apply_updates ::
  "(string \<times> json option \<times> json option) list \<Rightarrow> controller \<Rightarrow> controller" where
  "apply_updates [] s = s"
| "apply_updates ((rname, v, h) # us) s =
     (case updateTrafficData rname v h s of
        Inl e \<Rightarrow> apply_updates us s
      | Inr s' \<Rightarrow> apply_updates us s')"

fun run_boundaries ::
  "((string \<times> json option \<times> json option) list \<times> int) list \<Rightarrow> controller
     \<Rightarrow> ((bool \<times> phase) list \<times> controller) option" where
  "run_boundaries [] s = Some ([], s)"
| "run_boundaries ((us, lag) # steps) s =
     (let s1 = apply_updates us s in
      case boundary s1 of
        None \<Rightarrow> None
      | Some now \<Rightarrow>
          (let (b, s') = updatePhase now (now + lag) s1 in
           case run_boundaries steps s' of
             None \<Rightarrow> None
           | Some (trace, s'') \<Rightarrow> Some ((b, currentPhase s') # trace, s'')))"

text \<open>
  A count that \<open>parseInt\<close> reads as less than \<open>2 ^ 1000\<close> (or as no number, or
  that makes it throw), and a step of a run whose counts are such and whose clock does
  not go back.
\<close>

definition count_limit :: real where
  "count_limit = 2 powi 1000"

definition small_count :: "json option \<Rightarrow> bool" where
  "small_count v = (case parseInt v of Inl e \<Rightarrow> True | Inr a \<Rightarrow> \<not> ge a (Fin count_limit))"

definition small_step :: "(string \<times> json option \<times> json option) list \<times> int \<Rightarrow> bool" where
  "small_step st =
     (0 \<le> snd st \<and> list_all (\<lambda>u. small_count (fst (snd u)) \<and> small_count (snd (snd u))) (fst st))"

text \<open>The largest time value, and a bound on the clock at the end of a run.\<close>

definition MAX_TIME :: int where
  "MAX_TIME = 8640000000000000"

definition latest :: "int \<Rightarrow> ((string \<times> json option \<times> json option) list \<times> int) list \<Rightarrow> int" where
  "latest t0 steps = t0 + sum_list (map (\<lambda>st. 60000 + snd st) steps)"

text \<open>The counts of every route are finite, at least zero and at most \<open>2 ^ 1000\<close>.\<close>

definition bounded_traffic :: "controller \<Rightarrow> bool" where
  "bounded_traffic s =
     (\<forall>r. \<exists>v h. vehicles (trafficData s r) = Fin v \<and> heavyVehicles (trafficData s r) = Fin h \<and>
             0 \<le> v \<and> v \<le> count_limit \<and> 0 \<le> h \<and> h \<le> count_limit)"

text \<open>The cycle of the phases.\<close>

definition phase_cycle :: "phase list" where
  "phase_cycle = [PHASE_AC_GREEN, PHASE_AC_YELLOW, PHASE_BD_GREEN, PHASE_BD_YELLOW]"

section \<open>Rounding to a double\<close>

lemma rne_ge: "of_int k \<le> y \<Longrightarrow> k \<le> rne y"
proof -
  assume "of_int k \<le> y"
  then have "k \<le> \<lfloor>y\<rfloor>" by (simp add: le_floor_iff)
  then show ?thesis by (simp add: rne_def Let_def)
qed

lemma rne_le: "y \<le> of_int k \<Longrightarrow> rne y \<le> k"
proof -
  assume le: "y \<le> of_int k"
  show ?thesis
  proof (cases "y = of_int \<lfloor>y\<rfloor>")
    case True
    then have "\<lfloor>y\<rfloor> \<le> k" using le by linarith
    moreover have "rne y = \<lfloor>y\<rfloor>" using True by (simp add: rne_def Let_def)
    ultimately show ?thesis by simp
  next
    case False
    then have "of_int \<lfloor>y\<rfloor> < y" by (metis of_int_floor_le order_less_le)
    with le have "\<lfloor>y\<rfloor> < k" by linarith
    moreover have "rne y \<le> \<lfloor>y\<rfloor> + 1" by (simp add: rne_def Let_def)
    ultimately show ?thesis by linarith
  qed
qed

lemma rne_of_int: "rne (of_int k) = k"
  by (simp add: rne_def Let_def)

lemma two_powi_pos: "0 < (2::real) powi e"
  by (simp add: zero_less_power_int)

lemma two_powi_add: "(2::real) powi (a + b) = 2 powi a * 2 powi b"
  by (simp add: power_int_add)

lemma two_powi_mono: "a \<le> b \<Longrightarrow> (2::real) powi a \<le> 2 powi b"
  by (simp add: power_int_increasing)

lemma two_powi_nat: "0 \<le> k \<Longrightarrow> (2::real) powi k = of_int (2 ^ nat k)"
  by (simp add: power_int_def)

lemma expo_ge: "- 1022 \<le> expo x"
  by (simp add: expo_def)

lemma two_powr_powi: "(2::real) powr real_of_int k = 2 powi k"
  by (simp add: powr_real_of_int')

lemma two_powr_powi_Suc: "(2::real) powr (real_of_int k + 1) = 2 powi (k + 1)"
  using two_powr_powi [of "k + 1"] by simp

lemma floor_log_iff:
  assumes "0 < x"
  shows "(\<lfloor>log 2 x\<rfloor> = k) = (2 powi k \<le> x \<and> x < 2 powi (k + 1))"
  using floor_log_eq_powr_iff [of x 2 k] assms
  by (simp add: two_powr_powi two_powr_powi_Suc)

lemma floor_log_bounds:
  assumes "0 < x"
  shows "2 powi \<lfloor>log 2 x\<rfloor> \<le> x" "x < 2 powi (\<lfloor>log 2 x\<rfloor> + 1)"
  using floor_log_iff [OF assms, of "\<lfloor>log 2 x\<rfloor>"] by simp_all

lemma expo_upper: "0 < x \<Longrightarrow> x < 2 powi (expo x + 1)"
proof -
  assume x: "0 < x"
  have "\<lfloor>log 2 x\<rfloor> + 1 \<le> expo x + 1" by (simp add: expo_def)
  then have "(2::real) powi (\<lfloor>log 2 x\<rfloor> + 1) \<le> 2 powi (expo x + 1)" by (rule two_powi_mono)
  with floor_log_bounds(2) [OF x] show ?thesis by linarith
qed

lemma expo_lower: "0 < x \<Longrightarrow> - 1022 < expo x \<Longrightarrow> 2 powi expo x \<le> x"
proof -
  assume x: "0 < x" and e: "- 1022 < expo x"
  then have "expo x = \<lfloor>log 2 x\<rfloor>" by (simp add: expo_def max_def split: if_splits)
  with floor_log_bounds(1) [OF x] show ?thesis by simp
qed

lemma expo_eq:
  assumes "2 powi e \<le> x" "x < 2 powi (e + 1)" "- 1022 \<le> e"
  shows "expo x = e"
proof -
  have x: "0 < x" using assms(1) two_powi_pos [of e] by linarith
  have "\<lfloor>log 2 x\<rfloor> = e"
    using floor_log_iff [OF x, of e] assms(1,2) by simp
  with assms(3) show ?thesis by (simp add: expo_def)
qed

lemma expo_subnormal:
  assumes "0 < x" "x < 2 powi (- 1022)"
  shows "expo x = - 1022"
proof (rule ccontr)
  assume "expo x \<noteq> - 1022"
  with expo_ge [of x] have e: "- 1022 < expo x" by linarith
  from expo_lower [OF assms(1) e] have "2 powi expo x \<le> x" .
  moreover have "(2::real) powi (- 1022) \<le> 2 powi expo x"
    using e by (intro two_powi_mono) simp
  ultimately show False using assms(2) by linarith
qed

lemma dbl_less_top:
  fixes y :: real
  assumes "0 < n" "n < 2 ^ 53" "y = of_int n * 2 powi (e - 52)"
  shows "y < 2 powi (e + 1)"
proof -
  have "(of_int n :: real) < 2 ^ 53" using assms(2) by (metis of_int_less_iff of_int_numeral of_int_power)
  then have "of_int n * 2 powi (e - 52) < 2 ^ 53 * (2::real) powi (e - 52)"
    using two_powi_pos [of "e - 52"] by simp
  also have "\<dots> = 2 powi 53 * 2 powi (e - 52)" by simp
  also have "\<dots> = 2 powi (53 + (e - 52))" by (simp only: two_powi_add)
  also have "\<dots> = 2 powi (e + 1)" by (simp add: algebra_simps)
  finally show ?thesis using assms(3) by simp
qed

lemma mult_of_ulp:
  assumes "e \<le> eb"
  shows "of_int n * (2::real) powi (eb - 52) / 2 powi (e - 52) = of_int (n * 2 ^ nat (eb - e))"
proof -
  have "(2::real) powi (eb - 52) = 2 powi (eb - e) * 2 powi (e - 52)"
    using two_powi_add [of "eb - e" "e - 52"] by (simp add: algebra_simps)
  moreover have "(2::real) powi (eb - e) = of_int (2 ^ nat (eb - e))"
    using assms by (intro two_powi_nat) simp
  ultimately show ?thesis using two_powi_pos [of "e - 52"] by simp
qed

lemma scaled_lt: "0 < x \<Longrightarrow> x / 2 powi (expo x - 52) < 2 ^ 53"
proof -
  assume x: "0 < x"
  have "x < 2 powi (expo x + 1)" by (rule expo_upper [OF x])
  also have "\<dots> = 2 powi 53 * 2 powi (expo x - 52)"
    using two_powi_add [of 53 "expo x - 52"] by (simp add: algebra_simps)
  finally show ?thesis using two_powi_pos [of "expo x - 52"] by (simp add: pos_divide_less_eq)
qed

lemma scaled_ge: "0 < x \<Longrightarrow> - 1022 < expo x \<Longrightarrow> 2 ^ 52 \<le> x / 2 powi (expo x - 52)"
proof -
  assume x: "0 < x" and e: "- 1022 < expo x"
  have "2 powi 52 * 2 powi (expo x - 52) = (2::real) powi expo x"
    using two_powi_add [of 52 "expo x - 52"] by (simp add: algebra_simps)
  with expo_lower [OF x e] have "2 powi 52 * 2 powi (expo x - 52) \<le> x" by simp
  then show ?thesis using two_powi_pos [of "expo x - 52"] by (simp add: pos_le_divide_eq)
qed

lemma huge_ge: "e \<le> 1024 \<Longrightarrow> 2 powi e \<le> huge"
  unfolding huge_def by (rule two_powi_mono)

lemma huge_le: "1024 \<le> e \<Longrightarrow> huge \<le> 2 powi e"
  unfolding huge_def by (rule two_powi_mono)

lemma fl_pos_value:
  "fl_pos x =
     (if huge \<le> of_int (rne (x / 2 powi (expo x - 52))) * 2 powi (expo x - 52) then PInf
      else Fin (of_int (rne (x / 2 powi (expo x - 52))) * 2 powi (expo x - 52)))"
  by (simp add: fl_pos_def Let_def)

text \<open>Rounding does not pass a double above.\<close>

lemma fl_pos_le:
  assumes x: "0 < x" and le: "x \<le> b" and b: "dbl b"
  shows "\<exists>y. fl_pos x = Fin y \<and> 0 \<le> y \<and> y \<le> b"
proof -
  define e where "e = expo x"
  define u where "u = (2::real) powi (e - 52)"
  have u: "0 < u" by (simp add: u_def two_powi_pos)
  from x le have "b \<noteq> 0" by linarith
  with b obtain n eb where n: "0 < n" "n < 2 ^ 53" and eb: "- 1022 \<le> eb" "eb \<le> 1023"
    and bv: "b = of_int n * 2 powi (eb - 52)"
    by (auto simp: dbl_def)
  have btop: "b < 2 powi (eb + 1)" by (rule dbl_less_top [OF n bv])
  have ee: "e \<le> eb"
  proof (rule ccontr)
    assume "\<not> e \<le> eb"
    then have lt: "eb + 1 \<le> e" by simp
    with eb have "- 1022 < expo x" by (simp add: e_def)
    from expo_lower [OF x this] have "2 powi e \<le> x" by (simp add: e_def)
    moreover have "(2::real) powi (eb + 1) \<le> 2 powi e" using lt by (rule two_powi_mono)
    ultimately show False using btop le by linarith
  qed
  have bu: "b / u = of_int (n * 2 ^ nat (eb - e))"
    unfolding bv u_def by (rule mult_of_ulp [OF ee])
  have "x / u \<le> b / u" using le u by (simp add: divide_right_mono)
  then have "rne (x / u) \<le> n * 2 ^ nat (eb - e)" unfolding bu by (rule rne_le)
  then have "(of_int (rne (x / u)) :: real) \<le> of_int (n * 2 ^ nat (eb - e))"
    by (simp only: of_int_le_iff)
  then have "of_int (rne (x / u)) * u \<le> of_int (n * 2 ^ nat (eb - e)) * u"
    using u by (simp add: mult_right_mono)
  also have "\<dots> = b" using bu u by (simp add: field_simps)
  finally have yb: "of_int (rne (x / u)) * u \<le> b" .
  have "(of_int (0::int) :: real) \<le> x / u" using x u by simp
  then have "0 \<le> rne (x / u)" by (rule rne_ge)
  then have y0: "0 \<le> of_int (rne (x / u)) * u" using u by simp
  have "(2::real) powi (eb + 1) \<le> huge" using eb by (intro huge_ge) simp
  with btop yb have "\<not> huge \<le> of_int (rne (x / u)) * u" by linarith
  then have "fl_pos x = Fin (of_int (rne (x / u)) * u)"
    by (simp add: fl_pos_value u_def e_def)
  with yb y0 show ?thesis by blast
qed

text \<open>Rounding does not pass a double below.\<close>

lemma fl_pos_ge:
  assumes x: "0 < x" and le: "a \<le> x" and a: "dbl a"
  shows "fl_pos x = PInf \<or> (\<exists>y. fl_pos x = Fin y \<and> a \<le> y)"
proof -
  define e where "e = expo x"
  define u where "u = (2::real) powi (e - 52)"
  have u: "0 < u" by (simp add: u_def two_powi_pos)
  have "(of_int (0::int) :: real) \<le> x / u" using x u by simp
  then have "0 \<le> rne (x / u)" by (rule rne_ge)
  then have y0: "0 \<le> of_int (rne (x / u)) * u" using u by simp
  have ay: "a \<le> of_int (rne (x / u)) * u"
  proof (cases "a = 0")
    case True
    with y0 show ?thesis by simp
  next
    case False
    with a obtain n ea where n: "0 < n" "n < 2 ^ 53" and ea: "- 1022 \<le> ea" "ea \<le> 1023"
      and av: "a = of_int n * 2 powi (ea - 52)"
      by (auto simp: dbl_def)
    show ?thesis
    proof (cases "e \<le> ea")
      case True
      have au: "a / u = of_int (n * 2 ^ nat (ea - e))"
        unfolding av u_def by (rule mult_of_ulp [OF True])
      have "a / u \<le> x / u" using le u by (simp add: divide_right_mono)
      then have "n * 2 ^ nat (ea - e) \<le> rne (x / u)" unfolding au by (rule rne_ge)
      then have "(of_int (n * 2 ^ nat (ea - e)) :: real) \<le> of_int (rne (x / u))"
        by (simp only: of_int_le_iff)
      then have "of_int (n * 2 ^ nat (ea - e)) * u \<le> of_int (rne (x / u)) * u"
        using u by (simp add: mult_right_mono)
      moreover have "of_int (n * 2 ^ nat (ea - e)) * u = a" using au u by (simp add: field_simps)
      ultimately show ?thesis by simp
    next
      case False
      then have lt: "ea + 1 \<le> e" by simp
      with ea have en: "- 1022 < expo x" by (simp add: e_def)
      have "(2::real) ^ 52 \<le> x / u" using scaled_ge [OF x en] by (simp add: u_def e_def)
      then have "(of_int (2 ^ 52) :: real) \<le> x / u" by simp
      then have "2 ^ 52 \<le> rne (x / u)" by (rule rne_ge)
      then have "(of_int (2 ^ 52) :: real) \<le> of_int (rne (x / u))" by (simp only: of_int_le_iff)
      then have "2 ^ 52 * u \<le> of_int (rne (x / u)) * u" using u by (simp add: mult_right_mono)
      moreover have "2 ^ 52 * u = 2 powi e"
        using two_powi_add [of 52 "e - 52"] by (simp add: u_def algebra_simps)
      moreover have "a < 2 powi (ea + 1)" by (rule dbl_less_top [OF n av])
      moreover have "(2::real) powi (ea + 1) \<le> 2 powi e" using lt by (rule two_powi_mono)
      ultimately show ?thesis by linarith
    qed
  qed
  show ?thesis using ay by (simp add: fl_pos_value u_def e_def)
qed

text \<open>The result of rounding is a double.\<close>

lemma fl_pos_dbl:
  assumes x: "0 < x" and r: "fl_pos x = Fin y"
  shows "dbl y" "0 \<le> y"
proof -
  define e where "e = expo x"
  define u where "u = (2::real) powi (e - 52)"
  define n where "n = rne (x / u)"
  have u: "0 < u" by (simp add: u_def two_powi_pos)
  have yv: "y = of_int n * u" and fin: "\<not> huge \<le> of_int n * u"
    using r by (simp_all add: fl_pos_value u_def e_def n_def split: if_splits)
  have "(of_int (0::int) :: real) \<le> x / u" using x u by simp
  then have n0: "0 \<le> n" unfolding n_def by (rule rne_ge)
  then show "0 \<le> y" using u yv by simp
  have "x / u \<le> of_int (2 ^ 53)" using scaled_lt [OF x] by (simp add: u_def e_def)
  then have n53: "n \<le> 2 ^ 53" unfolding n_def by (rule rne_le)
  have e1022: "- 1022 \<le> e" by (simp add: e_def expo_ge)
  show "dbl y"
  proof (cases "n = 0")
    case True
    then show ?thesis by (simp add: yv dbl_def)
  next
    case False
    with n0 have npos: "0 < n" by simp
    have elt: "e \<le> 1023"
    proof (rule ccontr)
      assume "\<not> e \<le> 1023"
      then have big: "1024 \<le> e" by simp
      then have en: "- 1022 < expo x" by (simp add: e_def)
      have "(of_int (2 ^ 52) :: real) \<le> x / u" using scaled_ge [OF x en] by (simp add: u_def e_def)
      then have "2 ^ 52 \<le> n" unfolding n_def by (rule rne_ge)
      then have "(of_int (2 ^ 52) :: real) \<le> of_int n" by (simp only: of_int_le_iff)
      then have "2 ^ 52 * u \<le> of_int n * u" using u by (simp add: mult_right_mono)
      moreover have "2 ^ 52 * u = 2 powi e"
        using two_powi_add [of 52 "e - 52"] by (simp add: u_def algebra_simps)
      moreover have "huge \<le> 2 powi e" using big by (rule huge_le)
      ultimately show False using fin by linarith
    qed
    show ?thesis
    proof (cases "n = 2 ^ 53")
      case False
      with n53 have "n < 2 ^ 53" by simp
      with npos e1022 elt yv show ?thesis
        unfolding dbl_def u_def by blast
    next
      case True
      have "of_int n * u = 2 powi 53 * 2 powi (e - 52)" by (simp add: True u_def)
      also have "\<dots> = 2 powi (e + 1)"
        using two_powi_add [of 53 "e - 52"] by (simp add: algebra_simps)
      finally have top: "of_int n * u = 2 powi (e + 1)" .
      have e2: "e + 1 \<le> 1023"
      proof (rule ccontr)
        assume "\<not> e + 1 \<le> 1023"
        then have "1024 \<le> e + 1" by simp
        then have "huge \<le> 2 powi (e + 1)" by (rule huge_le)
        with fin top show False by simp
      qed
      have "y = of_int (2 ^ 52) * 2 powi ((e + 1) - 52)"
      proof -
        have "of_int (2 ^ 52) * 2 powi ((e + 1) - 52) = 2 powi 52 * (2::real) powi ((e + 1) - 52)" by simp
        also have "\<dots> = 2 powi (e + 1)"
          using two_powi_add [of 52 "(e + 1) - 52"] by (simp add: algebra_simps)
        finally show ?thesis using yv top by simp
      qed
      moreover have "(0::int) < 2 ^ 52" "(2::int) ^ 52 < 2 ^ 53" by simp_all
      moreover have "- 1022 \<le> e + 1" using e1022 by simp
      ultimately show ?thesis using e2 unfolding dbl_def by blast
    qed
  qed
qed

lemma fl_pos_exact:
  assumes "0 < y" "dbl y"
  shows "fl_pos y = Fin y"
proof -
  from fl_pos_le [OF assms(1) order_refl assms(2)] obtain z where
    z: "fl_pos y = Fin z" "z \<le> y" by blast
  from fl_pos_ge [OF assms(1) order_refl assms(2)] z(1) have "y \<le> z" by simp
  with z show ?thesis by simp
qed

lemma two_powi_Suc: "(2::real) powi (e + 1) = 2 * 2 powi e"
proof -
  have "(2::real) powi (e + 1) = 2 powi e * 2 powi 1" by (rule two_powi_add)
  then show ?thesis by simp
qed

lemma two_powi_52: "(2::real) powi e = 2 ^ 52 * 2 powi (e - 52)"
proof -
  have "(2::real) powi e = 2 powi (52 + (e - 52))"
    by (rule arg_cong [where f = "\<lambda>k. 2 powi k"]) simp
  also have "\<dots> = 2 powi 52 * 2 powi (e - 52)" by (rule two_powi_add)
  finally show ?thesis by simp
qed

lemma two_powi_53: "(2::real) powi (e + 1) = 2 ^ 53 * 2 powi (e - 52)"
proof -
  have "(2::real) powi (e + 1) = 2 powi (53 + (e - 52))"
    by (rule arg_cong [where f = "\<lambda>k. 2 powi k"]) simp
  also have "\<dots> = 2 powi 53 * 2 powi (e - 52)" by (rule two_powi_add)
  finally show ?thesis by simp
qed

lemma two_powi_le_pos: "(2::real) powi e \<le> x \<Longrightarrow> 0 < x"
  by (rule less_le_trans [OF two_powi_pos])

lemma dbl_nonneg: "dbl y \<Longrightarrow> 0 \<le> y"
  unfolding dbl_def using two_powi_pos by (auto simp: zero_le_mult_iff less_imp_le)

lemma dbl_scaled:
  fixes m :: int
  assumes "0 < m" "m < 2 ^ 53" "- 1074 \<le> k" "k \<le> 971"
  shows "dbl (of_int m * 2 powi k)"
proof -
  have "0 < m \<and> m < 2 ^ 53 \<and> - 1022 \<le> k + 52 \<and> k + 52 \<le> 1023 \<and>
        (of_int m * 2 powi k :: real) = of_int m * 2 powi (k + 52 - 52)"
    using assms by simp
  then show ?thesis unfolding dbl_def by blast
qed

lemma dbl_of_int:
  assumes "0 \<le> n" "n < 2 ^ 53"
  shows "dbl (of_int n)"
proof (cases "n = 0")
  case True
  then show ?thesis by (simp add: dbl_def)
next
  case False
  then have "dbl (of_int n * 2 powi 0)" using assms by (intro dbl_scaled) simp_all
  then show ?thesis by simp
qed

lemma fl_exact: "dbl y \<Longrightarrow> fl y = Fin y"
  using fl_pos_exact [of y] dbl_nonneg [of y] by (auto simp: fl_def)

lemma fl_of_int:
  assumes "\<bar>n\<bar> < 2 ^ 53"
  shows "fl (of_int n) = Fin (of_int n)"
proof (cases "0 \<le> n")
  case True
  then show ?thesis using assms by (intro fl_exact dbl_of_int) simp_all
next
  case False
  then have "dbl (of_int (- n))" using assms by (intro dbl_of_int) simp_all
  then have "fl_pos (of_int (- n)) = Fin (of_int (- n))"
    using False by (intro fl_pos_exact) simp_all
  then show ?thesis using False by (simp add: fl_def fneg_def)
qed

lemma fl_nonneg_le:
  assumes "0 \<le> x" "x \<le> b" "dbl b"
  shows "\<exists>y. fl x = Fin y \<and> 0 \<le> y \<and> y \<le> b"
proof (cases "x = 0")
  case True
  then show ?thesis using assms by (simp add: fl_def)
next
  case False
  then have "0 < x" using assms by simp
  then show ?thesis using fl_pos_le [of x b] assms by (simp add: fl_def)
qed

lemma fl_nonneg_ge:
  assumes "a \<le> x" "dbl a"
  shows "fl x = PInf \<or> (\<exists>y. fl x = Fin y \<and> a \<le> y)"
proof (cases "x = 0")
  case True
  then show ?thesis using assms dbl_nonneg [of a] by (simp add: fl_def)
next
  case False
  then have "0 < x" using assms dbl_nonneg [of a] by simp
  then show ?thesis using fl_pos_ge [of x a] assms by (simp add: fl_def)
qed

lemma fl_nonneg_cases:
  assumes "0 \<le> x"
  shows "fl x = PInf \<or> (\<exists>y. fl x = Fin y \<and> dbl y)"
proof (cases "x = 0")
  case True
  then show ?thesis by (simp add: fl_def dbl_def)
next
  case False
  then have x: "0 < x" using assms by simp
  show ?thesis
  proof (cases "fl_pos x")
    case (Fin y)
    then show ?thesis using fl_pos_dbl(1) [OF x Fin] x by (simp add: fl_def)
  next
    case PInf
    then show ?thesis using x by (simp add: fl_def)
  next
    case NInf
    then show ?thesis by (simp add: fl_pos_value split: if_splits)
  next
    case NaN
    then show ?thesis by (simp add: fl_pos_value split: if_splits)
  qed
qed

lemma huge_pos: "0 < huge"
  unfolding huge_def by (rule two_powi_pos)

lemma fl_pos_huge:
  assumes "huge \<le> x"
  shows "fl_pos x = PInf"
proof -
  have x: "0 < x" using assms huge_pos by simp
  have e: "1024 \<le> expo x"
  proof (rule ccontr)
    assume "\<not> 1024 \<le> expo x"
    then have "2 powi (expo x + 1) \<le> huge" by (intro huge_ge) simp
    then show False using expo_upper [OF x] assms by simp
  qed
  define u where "u = (2::real) powi (expo x - 52)"
  define r where "r = real_of_int (rne (x / u))"
  have u: "0 < u" unfolding u_def by (rule two_powi_pos)
  have "- 1022 < expo x" using e by simp
  then have "of_int (2 ^ 52) \<le> x / u" using scaled_ge [OF x] by (simp add: u_def)
  then have "2 ^ 52 \<le> rne (x / u)" by (rule rne_ge)
  then have "real_of_int (2 ^ 52) \<le> r" unfolding r_def by (simp only: of_int_le_iff)
  then have r: "2 ^ 52 \<le> r" by simp
  have "huge \<le> 2 powi expo x" using e by (rule huge_le)
  also have "\<dots> = 2 ^ 52 * u" unfolding u_def by (rule two_powi_52)
  also have "\<dots> \<le> r * u" using r u by (intro mult_right_mono) simp_all
  finally have "huge \<le> r * u" .
  then show ?thesis by (simp add: fl_pos_value r_def u_def)
qed

lemma rne_near:
  assumes "of_int k - 1 / 2 < y" "y < of_int k + 1 / 2"
  shows "rne y = k"
proof (cases "of_int k \<le> y")
  case True
  then have "\<lfloor>y\<rfloor> = k" using assms by (intro floor_unique) simp_all
  then show ?thesis using assms by (simp add: rne_def Let_def)
next
  case False
  then have "\<lfloor>y\<rfloor> = k - 1" using assms by (intro floor_unique) simp_all
  then show ?thesis using assms False by (simp add: rne_def Let_def)
qed

lemma fl_pos_near:
  assumes e: "- 1022 \<le> e" "e \<le> 1022"
    and x: "2 powi e \<le> x" "x < 2 powi (e + 1)"
    and k: "of_int k - 1 / 2 < x / 2 powi (e - 52)" "x / 2 powi (e - 52) < of_int k + 1 / 2"
  shows "fl_pos x = Fin (of_int k * 2 powi (e - 52))"
proof -
  have pos: "0 < x" using x(1) by (rule two_powi_le_pos)
  have ex: "expo x = e" using x e by (intro expo_eq) simp_all
  have r: "rne (x / 2 powi (e - 52)) = k" using k by (rule rne_near)
  define u where "u = (2::real) powi (e - 52)"
  have u: "0 < u" unfolding u_def by (rule two_powi_pos)
  have "x / u < 2 ^ 53" using scaled_lt [OF pos] ex by (simp add: u_def)
  then have "real_of_int k < 2 ^ 53 + 1 / 2" using k(1) by (simp add: u_def)
  then have "real_of_int k < of_int (2 ^ 53 + 1)" by simp
  then have "k < 2 ^ 53 + 1" by (simp only: of_int_less_iff)
  then have "k \<le> 2 ^ 53" by simp
  then have "real_of_int k \<le> of_int (2 ^ 53)" by (simp only: of_int_le_iff)
  then have k53: "real_of_int k \<le> 2 ^ 53" by simp
  have "of_int k * u \<le> 2 ^ 53 * u" using k53 u by (intro mult_right_mono) simp_all
  also have "\<dots> = 2 powi (e + 1)" unfolding u_def by (rule two_powi_53 [symmetric])
  also have "\<dots> < 2 * 2 powi (e + 1)" using two_powi_pos [of "e + 1"] by simp
  also have "\<dots> = 2 powi (e + 1 + 1)" by (rule two_powi_Suc [symmetric])
  also have "\<dots> \<le> huge" using e by (intro huge_ge) simp
  finally have "\<not> huge \<le> of_int k * u" by simp
  then show ?thesis using r ex by (simp add: fl_pos_value u_def)
qed

lemma fl_near:
  assumes "- 1022 \<le> e" "e \<le> 1022" "2 powi e \<le> x" "x < 2 powi (e + 1)"
    and "of_int k - 1 / 2 < x / 2 powi (e - 52)" "x / 2 powi (e - 52) < of_int k + 1 / 2"
  shows "fl x = Fin (of_int k * 2 powi (e - 52))"
proof -
  have "0 < x" using assms(3) by (rule two_powi_le_pos)
  then show ?thesis using fl_pos_near [OF assms] by (simp add: fl_def)
qed

lemma dbl_double:
  assumes "dbl x" "2 * x < huge"
  shows "dbl (2 * x)"
proof (cases "x = 0")
  case True
  then show ?thesis by (simp add: dbl_def)
next
  case False
  with assms(1) obtain n e where ne: "0 < n" "n < 2 ^ 53" "- 1022 \<le> e" "e \<le> 1023"
    "x = of_int n * 2 powi (e - 52)"
    unfolding dbl_def by blast
  have u: "0 < (2::real) powi (e - 52)" by (rule two_powi_pos)
  show ?thesis
  proof (cases "e \<le> 1022")
    case True
    have "(2::real) powi (e + 1 - 52) = 2 * 2 powi (e - 52)"
      using two_powi_Suc [of "e - 52"] by simp
    then have "0 < n \<and> n < 2 ^ 53 \<and> - 1022 \<le> e + 1 \<and> e + 1 \<le> 1023 \<and>
        2 * x = of_int n * 2 powi (e + 1 - 52)"
      using ne True by simp
    then show ?thesis unfolding dbl_def by blast
  next
    case False
    then have "1024 \<le> e + 1" by simp
    then have h: "huge \<le> 2 powi (e + 1)" by (rule huge_le)
    have "of_int (2 * n) * 2 powi (e - 52) = 2 * x" using ne(5) by simp
    also have "\<dots> < huge" by (rule assms(2))
    also have "\<dots> \<le> 2 powi (e + 1)" by (rule h)
    also have "\<dots> = 2 ^ 53 * 2 powi (e - 52)" by (rule two_powi_53)
    finally have "of_int (2 * n) * 2 powi (e - 52) < 2 ^ 53 * (2::real) powi (e - 52)" .
    then have "real_of_int (2 * n) < 2 ^ 53" using u by (simp only: mult_less_cancel_right_pos)
    then have "real_of_int (2 * n) < of_int (2 ^ 53)" by simp
    then have "2 * n < 2 ^ 53" by (simp only: of_int_less_iff)
    then have "0 < 2 * n \<and> 2 * n < 2 ^ 53 \<and> - 1022 \<le> e \<and> e \<le> 1023 \<and>
        2 * x = of_int (2 * n) * 2 powi (e - 52)"
      using ne by simp
    then show ?thesis unfolding dbl_def by blast
  qed
qed

section \<open>The green duration\<close>

lemma nonneg_cases: "nonneg a = PInf \<or> (\<exists>x. nonneg a = Fin x \<and> 0 \<le> x)"
  by (cases a) (auto simp: nonneg_def Math_max_def or_zero_def)

lemma pair_sum_cases:
  "fadd (nonneg a) (nonneg b) = PInf \<or> (\<exists>z. fadd (nonneg a) (nonneg b) = Fin z \<and> dbl z)"
proof -
  consider "nonneg a = PInf" | "nonneg b = PInf"
    | x y where "nonneg a = Fin x" "0 \<le> x" "nonneg b = Fin y" "0 \<le> y"
    using nonneg_cases [of a] nonneg_cases [of b] by blast
  then show ?thesis
  proof cases
    case 1
    then show ?thesis using nonneg_cases [of b] by auto
  next
    case 2
    then show ?thesis using nonneg_cases [of a] by auto
  next
    case 3
    then show ?thesis using fl_nonneg_cases [of "x + y"] by simp
  qed
qed

lemma pair1Demand_cases:
  "pair1Demand a b c d ph = PInf \<or> (\<exists>z. pair1Demand a b c d ph = Fin z \<and> dbl z)"
  by (simp add: pair1Demand_def pair_sum_cases)

lemma pair2Demand_cases:
  "pair2Demand a b c d ph = PInf \<or> (\<exists>z. pair2Demand a b c d ph = Fin z \<and> dbl z)"
  by (simp add: pair2Demand_def pair_sum_cases)

lemma total_zero_iff:
  assumes "dbl x" "dbl y"
  shows "fl (x + y) = Fin 0 \<longleftrightarrow> x = 0 \<and> y = 0"
proof
  assume z: "fl (x + y) = Fin 0"
  have x0: "0 \<le> x" and y0: "0 \<le> y" using assms by (simp_all add: dbl_nonneg)
  have "x \<le> x + y" using y0 by simp
  from fl_nonneg_ge [OF this assms(1)] z have "x \<le> 0" by auto
  moreover have "y \<le> x + y" using x0 by simp
  from fl_nonneg_ge [OF this assms(2)] z have "y \<le> 0" by auto
  ultimately show "x = 0 \<and> y = 0" using x0 y0 by simp
next
  assume "x = 0 \<and> y = 0"
  then show "fl (x + y) = Fin 0" by (simp add: fl_def)
qed

lemma timeRange: "fsub MAX_GREEN MIN_GREEN = Fin 55"
  using fl_of_int [of 55] by (simp add: fsub_def fneg_def MAX_GREEN_def MIN_GREEN_def)

lemma fl_08_range: "\<exists>c. fl (8 / 10) = Fin c \<and> 0 \<le> c \<and> c \<le> 1"
  using dbl_of_int [of 1] by (intro fl_nonneg_le) simp_all

lemma scaled_ratio_range:
  assumes r: "0 \<le> r" "r \<le> 1"
  shows "\<exists>g. fadd (Fin 5) (fmul (fmul (Fin 55) (Fin r)) (fl (8 / 10))) = Fin g \<and>
             5 \<le> g \<and> g \<le> 60"
proof -
  obtain c where c: "fl (8 / 10) = Fin c" "0 \<le> c" "c \<le> 1" using fl_08_range by blast
  have "\<exists>a. fl (55 * r) = Fin a \<and> 0 \<le> a \<and> a \<le> 55"
    using r dbl_of_int [of 55] by (intro fl_nonneg_le) simp_all
  then obtain a where a: "fl (55 * r) = Fin a" "0 \<le> a" "a \<le> 55" by blast
  have ac: "0 \<le> a * c" "a * c \<le> 55"
    using a c mult_mono [of a 55 c 1] by simp_all
  have "\<exists>b. fl (a * c) = Fin b \<and> 0 \<le> b \<and> b \<le> 55"
    using ac dbl_of_int [of 55] by (intro fl_nonneg_le) simp_all
  then obtain b where b: "fl (a * c) = Fin b" "0 \<le> b" "b \<le> 55" by blast
  have "\<exists>g. fl (5 + b) = Fin g \<and> 0 \<le> g \<and> g \<le> 60"
    using b dbl_of_int [of 60] by (intro fl_nonneg_le) simp_all
  then obtain g where g: "fl (5 + b) = Fin g" "g \<le> 60" by blast
  have "fl (5 + b) = PInf \<or> (\<exists>y. fl (5 + b) = Fin y \<and> 5 \<le> y)"
    using b dbl_of_int [of 5] by (intro fl_nonneg_ge) simp_all
  then have "5 \<le> g" using g by auto
  then show ?thesis using a b c g by simp
qed

lemma ratio_range:
  assumes p: "dbl p" and q: "q' = PInf \<or> (\<exists>q. q' = Fin q \<and> dbl q)"
    and nz: "\<not> (p = 0 \<and> q' = Fin 0)"
  shows "\<exists>r. fdiv (Fin p) (fadd (Fin p) q') = Fin r \<and> 0 \<le> r \<and> r \<le> 1"
proof -
  have p0: "0 \<le> p" using p by (rule dbl_nonneg)
  from q show ?thesis
  proof
    assume "q' = PInf"
    then show ?thesis by simp
  next
    assume "\<exists>q. q' = Fin q \<and> dbl q"
    then obtain q where q': "q' = Fin q" and dq: "dbl q" by blast
    have q0: "0 \<le> q" using dq by (rule dbl_nonneg)
    show ?thesis
    proof (cases "fl (p + q)")
      case (Fin t)
      have "p \<le> p + q" using q0 by simp
      from fl_nonneg_ge [OF this p] Fin have pt: "p \<le> t" by auto
      have "t \<noteq> 0" using total_zero_iff [OF p dq] Fin nz q' by auto
      then have t: "0 < t" using pt p0 by simp
      have "\<exists>r. fl (p / t) = Fin r \<and> 0 \<le> r \<and> r \<le> 1"
        using p0 pt t dbl_of_int [of 1] by (intro fl_nonneg_le) simp_all
      then show ?thesis using Fin q' t by simp
    next
      case PInf
      then show ?thesis using q' by simp
    next
      case NInf
      then show ?thesis using fl_nonneg_cases [of "p + q"] p0 q0 by simp
    next
      case NaN
      then show ?thesis using fl_nonneg_cases [of "p + q"] p0 q0 by simp
    qed
  qed
qed

lemma Math_round_range:
  assumes "5 \<le> g" "g \<le> 60"
  shows "\<exists>n. Math_round (Fin g) = Fin (of_int n) \<and> 5 \<le> n \<and> n \<le> 60"
proof -
  have "5 \<le> \<lfloor>g + 1 / 2\<rfloor>" using assms(1) by (simp add: le_floor_iff)
  moreover have "\<lfloor>g + 1 / 2\<rfloor> < 61" using assms(2) by (simp add: floor_less_iff)
  ultimately show ?thesis by (simp add: Math_round_def)
qed

lemma duration_range:
  assumes p: "dbl p" and q: "q' = PInf \<or> (\<exists>q. q' = Fin q \<and> dbl q)"
    and nz: "\<not> (p = 0 \<and> q' = Fin 0)"
  shows "\<exists>n. Math_round (fadd MIN_GREEN (fmul (fmul (fsub MAX_GREEN MIN_GREEN)
             (fdiv (Fin p) (fadd (Fin p) q'))) (fl (8 / 10)))) = Fin (of_int n) \<and>
           5 \<le> n \<and> n \<le> 60"
proof -
  obtain r where r: "fdiv (Fin p) (fadd (Fin p) q') = Fin r" "0 \<le> r" "r \<le> 1"
    using ratio_range [OF assms] by blast
  obtain g where g: "fadd (Fin 5) (fmul (fmul (Fin 55) (Fin r)) (fl (8 / 10))) = Fin g"
    "5 \<le> g" "g \<le> 60"
    using scaled_ratio_range [OF r(2,3)] by blast
  have "fadd MIN_GREEN (fmul (fmul (fsub MAX_GREEN MIN_GREEN)
             (fdiv (Fin p) (fadd (Fin p) q'))) (fl (8 / 10))) = Fin g"
    unfolding timeRange r(1) unfolding MIN_GREEN_def by (rule g(1))
  then show ?thesis using Math_round_range [OF g(2,3)] by simp
qed

lemma total_demand_zero:
  assumes p: "p' = PInf \<or> (\<exists>p. p' = Fin p \<and> dbl p)"
    and q: "q' = PInf \<or> (\<exists>q. q' = Fin q \<and> dbl q)"
  shows "strict_eq (fadd p' q') (Fin 0) \<longleftrightarrow> p' = Fin 0 \<and> q' = Fin 0"
proof -
  consider "p' = PInf" | "q' = PInf" | x y where "p' = Fin x" "dbl x" "q' = Fin y" "dbl y"
    using p q by blast
  then show ?thesis
  proof cases
    case 1
    then show ?thesis using q by (auto simp: strict_eq_def)
  next
    case 2
    then show ?thesis using p by (auto simp: strict_eq_def)
  next
    case 3
    then show ?thesis
      using total_zero_iff [OF 3(2,4)] fl_nonneg_cases [of "x + y"] dbl_nonneg [of x]
        dbl_nonneg [of y]
      by (auto simp: strict_eq_def)
  qed
qed

lemma calculateGreenDuration_eq:
  "calculateGreenDuration demandA demandB demandC demandD ph =
     (if pair1Demand demandA demandB demandC demandD ph = Fin 0 \<and>
         pair2Demand demandA demandB demandC demandD ph = Fin 0 then MIN_GREEN
      else Math_round (fadd MIN_GREEN (fmul (fmul (fsub MAX_GREEN MIN_GREEN)
             (fdiv (pair1Demand demandA demandB demandC demandD ph)
                (fadd (pair1Demand demandA demandB demandC demandD ph)
                   (pair2Demand demandA demandB demandC demandD ph)))) (fl (8 / 10)))))"
  using total_demand_zero [OF pair1Demand_cases pair2Demand_cases,
      of demandA demandB demandC demandD ph demandA demandB demandC demandD ph]
  by (simp add: calculateGreenDuration_def greenDuration_def Let_def)

lemma calculateGreenDuration_range:
  assumes "pair1Demand demandA demandB demandC demandD ph \<noteq> PInf"
  shows "\<exists>n. calculateGreenDuration demandA demandB demandC demandD ph = Fin (of_int n) \<and>
           5 \<le> n \<and> n \<le> 60"
proof -
  obtain p where p: "pair1Demand demandA demandB demandC demandD ph = Fin p" "dbl p"
    using pair1Demand_cases [of demandA demandB demandC demandD ph] assms by blast
  show ?thesis
  proof (cases "p = 0 \<and> pair2Demand demandA demandB demandC demandD ph = Fin 0")
    case True
    then have "calculateGreenDuration demandA demandB demandC demandD ph = Fin (of_int 5)"
      using p by (simp add: calculateGreenDuration_eq MIN_GREEN_def)
    then show ?thesis by (intro exI [of _ 5]) simp
  next
    case False
    from duration_range [OF p(2) pair2Demand_cases False] show ?thesis
      using False p by (auto simp: calculateGreenDuration_eq)
  qed
qed

lemma fl_08: "fl (8 / 10) = Fin (7205759403792794 / 2 ^ 53)"
  using fl_near [of "- 1" "8 / 10" 7205759403792794] by (simp add: power_int_minus)

lemma fl_half: "fl (1 / 2) = Fin (1 / 2)"
  using fl_exact [OF dbl_scaled [of 1 "- 1"]] by (simp add: power_int_minus)

lemma half_range: "fmul (Fin 55) (Fin (1 / 2)) = Fin (55 / 2)"
  using fl_exact [OF dbl_scaled [of 55 "- 1"]] by (simp add: power_int_minus)

lemma half_range_08: "fmul (Fin (55 / 2)) (Fin (7205759403792794 / 2 ^ 53)) = Fin 22"
  using fl_near [of 4 "55 / 2 * (7205759403792794 / 2 ^ 53)" 6192449487634432]
  by (simp add: power_int_minus)

lemma fadd_5_22: "fadd (Fin 5) (Fin 22) = Fin 27"
  using fl_of_int [of 27] by simp

lemma equal_formula:
  "Math_round (fadd MIN_GREEN (fmul (fmul (fsub MAX_GREEN MIN_GREEN) (Fin (1 / 2)))
     (fl (8 / 10)))) = Fin 27"
  unfolding timeRange half_range fl_08 half_range_08 unfolding MIN_GREEN_def fadd_5_22
  by (simp add: Math_round_def)

lemma fl_0: "fl 0 = Fin 0"
  by (simp add: fl_def)

lemma fl_5: "fl 5 = Fin 5"
  using fl_of_int [of 5] by simp

lemma zero_ratio:
  "Math_round (fadd MIN_GREEN (fmul (fmul (fsub MAX_GREEN MIN_GREEN) (Fin 0)) (fl (8 / 10)))) =
     Fin 5"
  unfolding timeRange fl_08 by (simp add: MIN_GREEN_def Math_round_def fl_0 fl_5)

lemma nonneg_Fin: "nonneg (Fin x) = Fin (max 0 x)"
  by (simp add: nonneg_def Math_max_def or_zero_def max_def)

lemma ratio_example:
  "fdiv (Fin 44519179478083) (Fin 46090444636133) = Fin (8700135643783911 / 2 ^ 53)"
  using fl_near [of "- 1" "44519179478083 / 46090444636133" 8700135643783911]
  by (simp add: power_int_minus)

lemma range_example:
  "fmul (Fin 55) (Fin (8700135643783911 / 2 ^ 53)) = Fin (7476679068876799 / 2 ^ 47)"
  using fl_near [of 5 "55 * (8700135643783911 / 2 ^ 53)" 7476679068876799]
  by (simp add: power_int_minus)

lemma weight_example:
  "fmul (Fin (7476679068876799 / 2 ^ 47)) (Fin (7205759403792794 / 2 ^ 53)) = Fin (85 / 2)"
  using fl_near [of 5 "7476679068876799 / 2 ^ 47 * (7205759403792794 / 2 ^ 53)"
      5981343255101440]
  by (simp add: power_int_minus)

lemma sum_example: "fadd (Fin 5) (Fin (85 / 2)) = Fin (95 / 2)"
  using fl_exact [OF dbl_scaled [of 95 "- 1"]] by (simp add: power_int_minus)

lemma duration_example:
  "calculateGreenDuration (Fin 44519179478083) (Fin 1571265158050) (Fin 0) (Fin 0)
     PHASE_AC_GREEN = Fin 48"
proof -
  have p: "pair1Demand (Fin 44519179478083) (Fin 1571265158050) (Fin 0) (Fin 0) PHASE_AC_GREEN =
      Fin 44519179478083"
    using fl_of_int [of 44519179478083] by (simp add: pair1Demand_def nonneg_Fin)
  have q: "pair2Demand (Fin 44519179478083) (Fin 1571265158050) (Fin 0) (Fin 0) PHASE_AC_GREEN =
      Fin 1571265158050"
    using fl_of_int [of 1571265158050] by (simp add: pair2Demand_def nonneg_Fin)
  have t: "fadd (Fin 44519179478083) (Fin 1571265158050) = Fin 46090444636133"
    using fl_of_int [of 46090444636133] by simp
  have n: "(Fin 44519179478083 = Fin 0 \<and> Fin 1571265158050 = Fin 0) = False" by simp
  have r: "Math_round (Fin (95 / 2)) = Fin 48" by (simp add: Math_round_def)
  show ?thesis
    unfolding calculateGreenDuration_eq p q n if_False t ratio_example timeRange range_example
      fl_08 weight_example
    unfolding MIN_GREEN_def sum_example r ..
qed

lemma fl_overflow: "fl (huge / 2 + huge / 2) = PInf"
  using fl_pos_huge [of huge] huge_pos by (simp add: fl_def)

lemma duration_overflow:
  "calculateGreenDuration (Fin (huge / 2)) (Fin 0) (Fin (huge / 2)) (Fin 0) PHASE_AC_GREEN = NaN"
proof -
  have p: "pair1Demand (Fin (huge / 2)) (Fin 0) (Fin (huge / 2)) (Fin 0) PHASE_AC_GREEN = PInf"
    using fl_overflow huge_pos by (simp add: pair1Demand_def nonneg_Fin max_def)
  have q: "pair2Demand (Fin (huge / 2)) (Fin 0) (Fin (huge / 2)) (Fin 0) PHASE_AC_GREEN = Fin 0"
    by (simp add: pair2Demand_def nonneg_Fin fl_0)
  show ?thesis
    unfolding calculateGreenDuration_eq p q timeRange fl_08
    by (simp add: MIN_GREEN_def Math_round_def)
qed

lemma dbl_half_huge: "dbl (huge / 2)"
proof -
  have "huge = 2 powi (1023 + 1)" unfolding huge_def by simp
  also have "\<dots> = 2 * 2 powi 1023" by (rule two_powi_Suc)
  also have "\<dots> = 2 * (2 ^ 52 * 2 powi (1023 - 52))" by (simp only: two_powi_52 [of 1023])
  finally have "huge / 2 = of_int (2 ^ 52) * 2 powi (1023 - 52)" by simp
  moreover have "(0::int) < 2 ^ 52 \<and> (2::int) ^ 52 < 2 ^ 53 \<and> - 1022 \<le> (1023::int) \<and>
      (1023::int) \<le> 1023"
    by simp
  ultimately show ?thesis unfolding dbl_def by blast
qed

text \<open>
  Claim C3 fails on the code in two ways. The operations of the formula are those of
  double-precision arithmetic, each rounded: for the pair demands 44519179478083 and
  1571265158050 the code returns 48, and the formula evaluated exactly, 47.4999..., rounds
  to 47. And when the sum of two finite demands of a pair overflows (here twice
  \<open>2 ^ 1023\<close>), the pair demand is \<open>Infinity\<close>, the ratio is NaN and so is the result,
  which lies in no interval.
\<close>

theorem green_duration_counterexample:
  "calculateGreenDuration (Fin 44519179478083) (Fin 1571265158050) (Fin 0) (Fin 0)
     PHASE_AC_GREEN = Fin 48 \<and>
   \<lfloor>5 + (60 - 5) * (44519179478083 / (44519179478083 + 1571265158050)) * (8 / 10) + 1 / 2 :: real\<rfloor>
     = 47 \<and>
   dbl (huge / 2) \<and>
   calculateGreenDuration (Fin (huge / 2)) (Fin 0) (Fin (huge / 2)) (Fin 0) PHASE_AC_GREEN = NaN"
  by (simp add: duration_example duration_overflow dbl_half_huge)

text \<open>
  Claim C3, amended. With p the demand of the pair the duration is computed for and q the
  demand of the other pair (both sums of the demands made non-negative), the green
  duration is MIN_GREEN when p and q are both zero, and otherwise \<open>Math.round\<close> of
  \<open>MIN_GREEN + (MAX_GREEN - MIN_GREEN) * (p / (p + q)) * 0.8\<close> in double-precision
  arithmetic; and when p is not \<open>Infinity\<close> the result is a whole number between
  MIN_GREEN and MAX_GREEN.
\<close>

theorem calculateGreenDuration_formula:
  "let p = pair1Demand demandA demandB demandC demandD ph;
       q = pair2Demand demandA demandB demandC demandD ph;
       g = calculateGreenDuration demandA demandB demandC demandD ph
   in g = (if p = Fin 0 \<and> q = Fin 0 then MIN_GREEN
           else Math_round (fadd MIN_GREEN
                  (fmul (fmul (fsub MAX_GREEN MIN_GREEN) (fdiv p (fadd p q))) (fl (8 / 10))))) \<and>
      (p \<noteq> PInf \<longrightarrow>
         (\<exists>n. g = Fin (of_int n)) \<and> ge g MIN_GREEN \<and> ge MAX_GREEN g)"
proof -
  have "pair1Demand demandA demandB demandC demandD ph \<noteq> PInf \<longrightarrow>
      (\<exists>n. calculateGreenDuration demandA demandB demandC demandD ph = Fin (of_int n)) \<and>
      ge (calculateGreenDuration demandA demandB demandC demandD ph) MIN_GREEN \<and>
      ge MAX_GREEN (calculateGreenDuration demandA demandB demandC demandD ph)"
  proof
    assume "pair1Demand demandA demandB demandC demandD ph \<noteq> PInf"
    from calculateGreenDuration_range [OF this] obtain n where
      "calculateGreenDuration demandA demandB demandC demandD ph = Fin (of_int n)"
      "5 \<le> n" "n \<le> 60"
      by blast
    then show "(\<exists>n. calculateGreenDuration demandA demandB demandC demandD ph = Fin (of_int n)) \<and>
      ge (calculateGreenDuration demandA demandB demandC demandD ph) MIN_GREEN \<and>
      ge MAX_GREEN (calculateGreenDuration demandA demandB demandC demandD ph)"
      by (auto simp: MIN_GREEN_def MAX_GREEN_def)
  qed
  then show ?thesis
    unfolding Let_def using calculateGreenDuration_eq [of demandA demandB demandC demandD ph]
    by blast
qed

theorem calculateGreenDuration_formula_witness:
  "pair1Demand (Fin 3) (Fin 1) (Fin 2) (Fin 0) PHASE_AC_GREEN = Fin 5 \<and>
   (\<exists>n. calculateGreenDuration (Fin 3) (Fin 1) (Fin 2) (Fin 0) PHASE_AC_GREEN = Fin (of_int n)) \<and>
   ge (calculateGreenDuration (Fin 3) (Fin 1) (Fin 2) (Fin 0) PHASE_AC_GREEN) MIN_GREEN \<and>
   ge MAX_GREEN (calculateGreenDuration (Fin 3) (Fin 1) (Fin 2) (Fin 0) PHASE_AC_GREEN)"
proof -
  have p: "pair1Demand (Fin 3) (Fin 1) (Fin 2) (Fin 0) PHASE_AC_GREEN = Fin 5"
    by (simp add: pair1Demand_def nonneg_Fin fl_5)
  have "pair1Demand (Fin 3) (Fin 1) (Fin 2) (Fin 0) PHASE_AC_GREEN \<noteq> PInf"
    by (simp add: p)
  then show ?thesis
    using calculateGreenDuration_formula [of "Fin 3" "Fin 1" "Fin 2" "Fin 0" PHASE_AC_GREEN] p
    unfolding Let_def by blast
qed

text \<open>
  Claim C4, as stated, fails when both pair demands are zero: the duration is then
  MIN_GREEN = 5, not round(MIN_GREEN + (MAX_GREEN - MIN_GREEN) * 0.5 * 0.8) = 27.
\<close>

theorem equal_demand_counterexample:
  "pair1Demand (Fin 0) (Fin 0) (Fin 0) (Fin 0) PHASE_AC_GREEN =
     pair2Demand (Fin 0) (Fin 0) (Fin 0) (Fin 0) PHASE_AC_GREEN \<and>
   calculateGreenDuration (Fin 0) (Fin 0) (Fin 0) (Fin 0) PHASE_AC_GREEN = Fin 5 \<and>
   Math_round (fadd MIN_GREEN (fmul (fmul (fsub MAX_GREEN MIN_GREEN) (Fin (1 / 2)))
     (fl (8 / 10)))) = Fin 27"
proof -
  have p: "pair1Demand (Fin 0) (Fin 0) (Fin 0) (Fin 0) PHASE_AC_GREEN = Fin 0"
    by (simp add: pair1Demand_def nonneg_Fin fl_0)
  have q: "pair2Demand (Fin 0) (Fin 0) (Fin 0) (Fin 0) PHASE_AC_GREEN = Fin 0"
    by (simp add: pair2Demand_def nonneg_Fin fl_0)
  have "calculateGreenDuration (Fin 0) (Fin 0) (Fin 0) (Fin 0) PHASE_AC_GREEN = Fin 5"
    unfolding calculateGreenDuration_eq p q by (simp add: MIN_GREEN_def)
  then show ?thesis using p q equal_formula by (simp only: simp_thms)
qed

lemma equal_ratio:
  assumes "dbl x" "x \<noteq> 0" "x + x < huge"
  shows "fdiv (Fin x) (fadd (Fin x) (Fin x)) = Fin (1 / 2)"
proof -
  have "dbl (2 * x)" using assms by (intro dbl_double) simp_all
  then have "fl (x + x) = Fin (2 * x)" using fl_exact [of "2 * x"] by simp
  then show ?thesis using assms(2) by (simp add: fl_half)
qed

lemma overflow_ratio:
  assumes "dbl x" "huge \<le> x + x"
  shows "fdiv (Fin x) (fadd (Fin x) (Fin x)) = Fin 0"
proof -
  have "0 < x + x" using assms(2) huge_pos by simp
  then have "fl (x + x) = PInf" using fl_pos_huge [OF assms(2)] by (simp add: fl_def)
  then show ?thesis by simp
qed

text \<open>
  Claim C4, amended. When the two pair demands are the same finite number, the green
  duration is round(MIN_GREEN + (MAX_GREEN - MIN_GREEN) * 0.5 * 0.8) = 27 seconds if the
  demand is not zero and the sum of the two does not overflow, and MIN_GREEN = 5 seconds
  if the demand is zero or the sum overflows (the ratio is zero then).
\<close>

theorem equal_demand_duration:
  assumes "pair1Demand demandA demandB demandC demandD ph = Fin x"
    and "pair2Demand demandA demandB demandC demandD ph = Fin x"
  shows "calculateGreenDuration demandA demandB demandC demandD ph =
           (if x = 0 then MIN_GREEN
            else if x + x < huge
            then Math_round (fadd MIN_GREEN (fmul (fmul (fsub MAX_GREEN MIN_GREEN) (Fin (1 / 2)))
                   (fl (8 / 10))))
            else MIN_GREEN)
         \<and> Math_round (fadd MIN_GREEN (fmul (fmul (fsub MAX_GREEN MIN_GREEN) (Fin (1 / 2)))
                   (fl (8 / 10)))) = Fin 27
         \<and> MIN_GREEN = Fin 5"
proof -
  have x: "dbl x"
    using pair1Demand_cases [of demandA demandB demandC demandD ph] assms(1) by simp
  have "calculateGreenDuration demandA demandB demandC demandD ph =
           (if x = 0 then MIN_GREEN
            else if x + x < huge
            then Math_round (fadd MIN_GREEN (fmul (fmul (fsub MAX_GREEN MIN_GREEN) (Fin (1 / 2)))
                   (fl (8 / 10))))
            else MIN_GREEN)"
  proof (cases "x = 0")
    case True
    then show ?thesis by (simp add: calculateGreenDuration_eq assms)
  next
    case nz: False
    have e: "calculateGreenDuration demandA demandB demandC demandD ph =
        Math_round (fadd MIN_GREEN (fmul (fmul (fsub MAX_GREEN MIN_GREEN)
          (fdiv (Fin x) (fadd (Fin x) (Fin x)))) (fl (8 / 10))))"
      using nz by (simp add: calculateGreenDuration_eq assms)
    show ?thesis
    proof (cases "x + x < huge")
      case True
      have "calculateGreenDuration demandA demandB demandC demandD ph =
          Math_round (fadd MIN_GREEN (fmul (fmul (fsub MAX_GREEN MIN_GREEN) (Fin (1 / 2)))
            (fl (8 / 10))))"
        using e unfolding equal_ratio [OF x nz True] .
      then show ?thesis using nz True by simp
    next
      case False
      then have "huge \<le> x + x" by simp
      then have "calculateGreenDuration demandA demandB demandC demandD ph =
          Math_round (fadd MIN_GREEN (fmul (fmul (fsub MAX_GREEN MIN_GREEN) (Fin 0))
            (fl (8 / 10))))"
        using e unfolding overflow_ratio [OF x \<open>huge \<le> x + x\<close>] by simp
      then have "calculateGreenDuration demandA demandB demandC demandD ph = Fin 5"
        unfolding zero_ratio .
      then show ?thesis using nz False by (simp add: MIN_GREEN_def)
    qed
  qed
  then show ?thesis using equal_formula MIN_GREEN_def by (intro conjI)
qed

theorem equal_demand_duration_witness:
  "pair1Demand (Fin 3) (Fin 1) (Fin 2) (Fin 4) PHASE_BD_GREEN = Fin 5 \<and>
   pair2Demand (Fin 3) (Fin 1) (Fin 2) (Fin 4) PHASE_BD_GREEN = Fin 5 \<and>
   calculateGreenDuration (Fin 3) (Fin 1) (Fin 2) (Fin 4) PHASE_BD_GREEN = Fin 27"
proof -
  have p: "pair1Demand (Fin 3) (Fin 1) (Fin 2) (Fin 4) PHASE_BD_GREEN = Fin 5"
    by (simp add: pair1Demand_def nonneg_Fin fl_5)
  have q: "pair2Demand (Fin 3) (Fin 1) (Fin 2) (Fin 4) PHASE_BD_GREEN = Fin 5"
    by (simp add: pair2Demand_def nonneg_Fin fl_5)
  have "(2::real) powi 4 \<le> huge" by (intro huge_ge) simp
  then have h: "(5::real) + 5 < huge" by simp
  from equal_demand_duration [OF p q]
  have c: "calculateGreenDuration (Fin 3) (Fin 1) (Fin 2) (Fin 4) PHASE_BD_GREEN =
           (if (5::real) = 0 then MIN_GREEN
            else if (5::real) + 5 < huge
            then Math_round (fadd MIN_GREEN (fmul (fmul (fsub MAX_GREEN MIN_GREEN) (Fin (1 / 2)))
                   (fl (8 / 10))))
            else MIN_GREEN)"
    and m: "Math_round (fadd MIN_GREEN (fmul (fmul (fsub MAX_GREEN MIN_GREEN) (Fin (1 / 2)))
                   (fl (8 / 10)))) = Fin 27"
    by blast+
  have "calculateGreenDuration (Fin 3) (Fin 1) (Fin 2) (Fin 4) PHASE_BD_GREEN = Fin 27"
    unfolding c m using h by simp
  then show ?thesis using p q by (simp only: simp_thms)
qed

lemma equal_infinite_demand:
  assumes "pair1Demand demandA demandB demandC demandD ph = PInf"
    and "pair2Demand demandA demandB demandC demandD ph = PInf"
  shows "calculateGreenDuration demandA demandB demandC demandD ph = NaN"
  unfolding calculateGreenDuration_eq assms timeRange fl_08
  by (simp add: MIN_GREEN_def Math_round_def)

section \<open>The signals of the pairs\<close>

lemma one_pair_open_applyPhaseSignals: "one_pair_open (signalState (applyPhaseSignals s))"
  by (simp add: applyPhaseSignals_def one_pair_open_def all_red_def)

lemma one_pair_open_transition: "one_pair_open (signalState (executePhaseTransition now s))"
  by (simp add: executePhaseTransition_def Let_def one_pair_open_applyPhaseSignals)

lemma one_pair_open_reset: "one_pair_open (signalState (reset now s))"
  by (simp add: reset_def one_pair_open_applyPhaseSignals)

lemma signalState_updateTrafficData:
  "updateTrafficData rname v h s = Inr s' \<Longrightarrow> signalState s' = signalState s"
  by (auto simp: updateTrafficData_def split: option.splits sum.splits)

lemma signalState_hasStateChanged: "signalState (snd (hasStateChanged s)) = signalState s"
  by (simp add: hasStateChanged_def Let_def)

lemma reachable_signals:
  "reachable s \<Longrightarrow> signalState s = all_red \<or> one_pair_open (signalState s)"
proof (induction rule: reachable.induct)
  case (r_constructor now)
  then show ?case by (simp add: constructor_def)
next
  case (r_updatePhase s now now')
  then show ?case by (simp add: updatePhase_def one_pair_open_transition)
next
  case (r_transition s now)
  then show ?case by (simp add: one_pair_open_transition)
next
  case (r_traffic s rname v h s')
  then show ?case by (simp add: signalState_updateTrafficData)
next
  case (r_changed s)
  then show ?case by (simp add: signalState_hasStateChanged)
next
  case (r_reset s now)
  then show ?case by (simp add: one_pair_open_reset)
qed

text \<open>
  Claim C2 fails in the state the constructor produces: the phase is PHASE_AC_GREEN and
  all four signals are red, so neither pair has both routes non-red. The constructor does
  not apply the signals of the phase; \<open>reset\<close>, from the same state, does.
\<close>

theorem constructor_signals_all_red:
  "reachable (constructor now) \<and>
   currentPhase (constructor now) = PHASE_AC_GREEN \<and>
   signalState (constructor now) A = RED \<and> signalState (constructor now) C = RED \<and>
   signalState (constructor now) B = RED \<and> signalState (constructor now) D = RED \<and>
   one_pair_open (signalState (constructor now)) = False \<and>
   one_pair_open (signalState (reset now (constructor now)))"
  by (simp add: r_constructor one_pair_open_reset)
     (simp add: constructor_def all_red_def one_pair_open_def)

section \<open>Change detection\<close>

lemma signal_name_inj:
  "quoted (signal_name x) @ r = quoted (signal_name y) @ r' \<Longrightarrow> x = y \<and> r = r'"
  by (cases x; cases y; simp add: quoted_def signal_name_def)

lemma JSON_stringify_inj: "JSON_stringify st = JSON_stringify st' \<longleftrightarrow> st = st'"
proof
  assume eq: "JSON_stringify st = JSON_stringify st'"
  have pt: "st r = st' r" for r
  proof -
    from eq have 1: "quoted (signal_name (st A)) @ '','' @
             quoted ''B'' @ '':'' @ quoted (signal_name (st B)) @ '','' @
             quoted ''C'' @ '':'' @ quoted (signal_name (st C)) @ '','' @
             quoted ''D'' @ '':'' @ quoted (signal_name (st D)) @ ''}''
       = quoted (signal_name (st' A)) @ '','' @
             quoted ''B'' @ '':'' @ quoted (signal_name (st' B)) @ '','' @
             quoted ''C'' @ '':'' @ quoted (signal_name (st' C)) @ '','' @
             quoted ''D'' @ '':'' @ quoted (signal_name (st' D)) @ ''}''"
      by (simp add: JSON_stringify_def quoted_def)
    from signal_name_inj [OF 1] have a: "st A = st' A" and 2:
      "quoted (signal_name (st B)) @ '','' @
             quoted ''C'' @ '':'' @ quoted (signal_name (st C)) @ '','' @
             quoted ''D'' @ '':'' @ quoted (signal_name (st D)) @ ''}''
       = quoted (signal_name (st' B)) @ '','' @
             quoted ''C'' @ '':'' @ quoted (signal_name (st' C)) @ '','' @
             quoted ''D'' @ '':'' @ quoted (signal_name (st' D)) @ ''}''"
      by (simp_all add: quoted_def)
    from signal_name_inj [OF 2] have b: "st B = st' B" and 3:
      "quoted (signal_name (st C)) @ '','' @
             quoted ''D'' @ '':'' @ quoted (signal_name (st D)) @ ''}''
       = quoted (signal_name (st' C)) @ '','' @
             quoted ''D'' @ '':'' @ quoted (signal_name (st' D)) @ ''}''"
      by (simp_all add: quoted_def)
    from signal_name_inj [OF 3] have c: "st C = st' C" and 4:
      "quoted (signal_name (st D)) @ ''}'' = quoted (signal_name (st' D)) @ ''}''"
      by (simp_all add: quoted_def)
    from signal_name_inj [OF 4] have d: "st D = st' D" by simp
    show ?thesis using a b c d by (cases r) simp_all
  qed
  then show "st = st'" by (simp add: fun_eq_iff)
qed simp

text \<open>
  Claim C9. \<open>hasStateChanged\<close> returns true exactly when the serialised signal
  state differs from the marker; a call that returns true stores the serialisation as the
  marker and changes nothing else, a call that returns false changes nothing; and a second
  call right after returns false.
\<close>

theorem hasStateChanged_consume_once:
  "fst (hasStateChanged s) = (JSON_stringify (signalState s) \<noteq> lastBroadcastState s) \<and>
   snd (hasStateChanged s) =
     (if fst (hasStateChanged s) then s\<lparr>lastBroadcastState := JSON_stringify (signalState s)\<rparr>
      else s) \<and>
   lastBroadcastState (snd (hasStateChanged s)) = JSON_stringify (signalState s) \<and>
   fst (hasStateChanged (snd (hasStateChanged s))) = False"
  by (simp add: hasStateChanged_def Let_def)

section \<open>The phase update\<close>

lemma time_value_exact: "\<bar>t\<bar> < 2 ^ 53 \<Longrightarrow> time_value t = Fin (of_int t)"
  unfolding time_value_def by (rule fl_of_int)

lemma time_value_0: "time_value 0 = Fin 0"
  by (simp add: time_value_def fl_def)

lemma elapsed_ms:
  assumes "\<bar>now\<bar> < 2 ^ 53" "\<bar>start\<bar> < 2 ^ 53" "\<bar>now - start\<bar> < 2 ^ 53"
  shows "fsub (time_value now) (time_value start) = Fin (of_int (now - start))"
  using fl_of_int [OF assms(3)]
  by (simp add: time_value_exact [OF assms(1)] time_value_exact [OF assms(2)] fsub_def fneg_def)

lemma elapsedTime_whole:
  assumes "\<bar>now\<bar> < 2 ^ 53" "\<bar>phaseStartTime s\<bar> < 2 ^ 53"
    and "now - phaseStartTime s = 1000 * k" "\<bar>1000 * k\<bar> < 2 ^ 53"
  shows "elapsedTime now s = Fin (of_int k)"
proof -
  have "\<bar>k\<bar> < 2 ^ 53" using assms(4) by simp
  then have "fl (of_int k) = Fin (of_int k)" by (rule fl_of_int)
  moreover have "fsub (time_value now) (time_value (phaseStartTime s)) = Fin (of_int (1000 * k))"
    using elapsed_ms [OF assms(1,2)] assms(3,4) by simp
  ultimately show ?thesis by (simp add: elapsedTime_def Math_round_def)
qed

lemma elapsedTime_4500: "elapsedTime 4500 (constructor 0) = Fin 5"
proof -
  have "fsub (time_value 4500) (time_value (phaseStartTime (constructor 0))) = Fin (of_int (4500 - 0))"
    unfolding constructor_def by (simp only: controller.simps) (rule elapsed_ms, simp_all)
  moreover have "fl (9 / 2) = Fin (9 / 2)"
    using fl_exact [OF dbl_scaled [of 9 "- 1"]] by (simp add: power_int_minus)
  ultimately show ?thesis by (simp add: elapsedTime_def Math_round_def)
qed

text \<open>
  Claim C6 fails on the code: 4500 ms after the start of a phase of 5 seconds the duration
  has not elapsed, and \<open>updatePhase\<close> returns true and moves to the next phase. The
  elapsed time is rounded to the nearest second before the comparison, so a phase can end
  up to half a second before its duration.
\<close>

theorem updatePhase_early_counterexample:
  "currentPhaseDuration (constructor 0) = Fin 5 \<and>
   4500 - phaseStartTime (constructor 0) < 1000 * 5 \<and>
   fst (updatePhase 4500 4500 (constructor 0)) = True \<and>
   currentPhase (snd (updatePhase 4500 4500 (constructor 0))) = PHASE_AC_YELLOW \<and>
   currentPhase (constructor 0) = PHASE_AC_GREEN"
  by (simp add: updatePhase_def elapsedTime_4500)
     (simp add: constructor_def MIN_GREEN_def executePhaseTransition_def applyPhaseSignals_def
        Let_def)

text \<open>
  One millisecond earlier the elapsed time rounds to 4 seconds, and \<open>updatePhase\<close>
  returns false and leaves the controller as it is.
\<close>

lemma updatePhase_noop_example: "updatePhase 4499 4499 (constructor 0) = (False, constructor 0)"
proof -
  have "fsub (time_value 4499) (time_value (phaseStartTime (constructor 0))) = Fin (of_int (4499 - 0))"
    unfolding constructor_def by (simp only: controller.simps) (rule elapsed_ms, simp_all)
  moreover have "\<exists>y. fl (4499 / 1000) = Fin y \<and> 0 \<le> y \<and> y \<le> 4607 / 1024"
    using dbl_scaled [of 4607 "- 10"] by (intro fl_nonneg_le) (simp_all add: power_int_minus)
  moreover have "fl (4499 / 1000) = PInf \<or> (\<exists>y. fl (4499 / 1000) = Fin y \<and> 4 \<le> y)"
    using dbl_of_int [of 4] by (intro fl_nonneg_ge) simp_all
  ultimately obtain y where y: "fl (4499 / 1000) = Fin y" "4 \<le> y" "y \<le> 4607 / 1024"
    "elapsedTime 4499 (constructor 0) = Fin (of_int \<lfloor>y + 1 / 2\<rfloor>)"
    by (auto simp: elapsedTime_def Math_round_def)
  have "\<lfloor>y + 1 / 2\<rfloor> = 4" using y(2,3) by (intro floor_unique) simp_all
  then have "elapsedTime 4499 (constructor 0) = Fin 4" using y(4) by simp
  then show ?thesis
    by (simp add: updatePhase_def) (simp add: constructor_def MIN_GREEN_def)
qed

lemma elapsedTime_5000: "elapsedTime 5000 (constructor 0) = Fin 5"
  using elapsedTime_whole [of 5000 "constructor 0" 5] by (simp add: constructor_def)

lemma updatePhase_5000:
  "updatePhase 5000 now' (constructor 0) = (True, executePhaseTransition now' (constructor 0))"
  by (simp add: updatePhase_def elapsedTime_5000) (simp add: constructor_def MIN_GREEN_def)

section \<open>Numbers through parseInt\<close>

lemma digitValue_digit: "k < 10 \<Longrightarrow> digitValue (char_of (48 + k :: nat)) = Some k"
  by (simp add: digitValue_def Let_def)

lemma digits10_chars: "c \<in> set (digits10 n) \<Longrightarrow> \<exists>k<10. c = char_of (48 + k :: nat)"
proof (induction n rule: digits10.induct)
  case (1 n)
  show ?case
  proof (cases "n < 10")
    case True
    with "1.prems" show ?thesis by (auto simp: digits10.simps [of n])
  next
    case False
    with "1.prems" have "c \<in> set (digits10 (n div 10)) \<or> c = char_of (48 + n mod 10)"
      by (auto simp: digits10.simps [of n])
    then show ?thesis
    proof
      assume "c \<in> set (digits10 (n div 10))"
      with "1.IH" False show ?thesis by simp
    next
      assume "c = char_of (48 + n mod 10)"
      moreover have "n mod 10 < 10" by simp
      ultimately show ?thesis by blast
    qed
  qed
qed

lemma digits10_nonempty: "digits10 n \<noteq> []"
  by (subst digits10.simps) simp

lemma radixValue_snoc:
  "radixValue R (Z @ [c]) =
     (case digitValue c of None \<Rightarrow> radixValue R Z | Some d \<Rightarrow> radixValue R Z * R + d)"
  by (simp add: radixValue_def split: option.splits)

lemma radixValue_digits10: "radixValue 10 (digits10 n) = n"
proof (induction n rule: digits10.induct)
  case (1 n)
  show ?case
  proof (cases "n < 10")
    case True
    then show ?thesis
      by (simp add: digits10.simps [of n] radixValue_def digitValue_digit)
  next
    case False
    have "radixValue 10 (digits10 n) = radixValue 10 (digits10 (n div 10)) * 10 + n mod 10"
      using False by (simp add: digits10.simps [of n] radixValue_snoc digitValue_digit)
    with "1.IH" False show ?thesis by simp
  qed
qed

lemma isRadixDigit_digits10: "c \<in> set (digits10 n) \<Longrightarrow> isRadixDigit 10 c"
  using digits10_chars [of c n] by (auto simp: isRadixDigit_def digitValue_digit)

lemma takeWhile_digits10: "takeWhile (isRadixDigit 10) (digits10 n) = digits10 n"
  by (simp add: takeWhile_eq_all_conv isRadixDigit_digits10)

lemma of_char_digit: "k < 10 \<Longrightarrow> (of_char (char_of (48 + k :: nat)) :: nat) = 48 + k"
  by simp

lemma digit_char_facts:
  fixes k :: nat
  assumes "k < 10"
  shows "\<not> isStrWhiteSpace (char_of (48 + k))" "char_of (48 + k) \<noteq> CHR ''-''"
    "char_of (48 + k) \<noteq> CHR ''+''" "char_of (48 + k) \<noteq> CHR ''x''" "char_of (48 + k) \<noteq> CHR ''X''"
proof -
  have ne: "char_of (48 + k) \<noteq> c" if "(of_char c :: nat) < 48 \<or> 57 < (of_char c :: nat)" for c
  proof
    assume "char_of (48 + k) = c"
    then have "(of_char (char_of (48 + k)) :: nat) = of_char c" by simp
    with of_char_digit [OF assms] that assms show False by linarith
  qed
  show "char_of (48 + k) \<noteq> CHR ''-''" "char_of (48 + k) \<noteq> CHR ''+''"
    "char_of (48 + k) \<noteq> CHR ''x''" "char_of (48 + k) \<noteq> CHR ''X''"
    by (rule ne, simp)+
  have "char_of (48 + k) \<noteq> c" if "c \<in> set [CHR 0x09, CHR 0x0A, CHR 0x0B, CHR 0x0C, CHR 0x0D, CHR 0x20, CHR 0xA0]" for c
    using that by (intro ne) auto
  then show "\<not> isStrWhiteSpace (char_of (48 + k))"
    unfolding isStrWhiteSpace_def by blast
qed

lemma digits10_no_x: "CHR ''x'' \<notin> set (digits10 n)" "CHR ''X'' \<notin> set (digits10 n)"
proof -
  show "CHR ''x'' \<notin> set (digits10 n)"
  proof
    assume "CHR ''x'' \<in> set (digits10 n)"
    then obtain k :: nat where "k < 10" "CHR ''x'' = char_of (48 + k)"
      using digits10_chars by blast
    with digit_char_facts(4) [of k] show False by simp
  qed
  show "CHR ''X'' \<notin> set (digits10 n)"
  proof
    assume "CHR ''X'' \<in> set (digits10 n)"
    then obtain k :: nat where "k < 10" "CHR ''X'' = char_of (48 + k)"
      using digits10_chars by blast
    with digit_char_facts(5) [of k] show False by simp
  qed
qed

lemma digits10_no_hex: "take 2 (digits10 n) \<noteq> ''0x''" "take 2 (digits10 n) \<noteq> ''0X''"
proof -
  show "take 2 (digits10 n) \<noteq> ''0x''"
  proof
    assume "take 2 (digits10 n) = ''0x''"
    then have "CHR ''x'' \<in> set (take 2 (digits10 n))" by simp
    then have "CHR ''x'' \<in> set (digits10 n)" by (rule in_set_takeD)
    with digits10_no_x(1) show False by simp
  qed
  show "take 2 (digits10 n) \<noteq> ''0X''"
  proof
    assume "take 2 (digits10 n) = ''0X''"
    then have "CHR ''X'' \<in> set (take 2 (digits10 n))" by simp
    then have "CHR ''X'' \<in> set (digits10 n)" by (rule in_set_takeD)
    with digits10_no_x(2) show False by simp
  qed
qed

lemma hd_digits10: "\<exists>k<10. hd (digits10 n) = char_of (48 + k :: nat)"
  using digits10_chars [of "hd (digits10 n)" n] digits10_nonempty [of n] by simp

lemma parseInt_string_digits10: "parseInt_string (digits10 n) = Some (int n)"
proof -
  obtain k :: nat where k: "k < 10" "hd (digits10 n) = char_of (48 + k)"
    using hd_digits10 by blast
  have ne: "digits10 n \<noteq> []" by (rule digits10_nonempty)
  have dw: "dropWhile isStrWhiteSpace (digits10 n) = digits10 n"
    using ne k digit_char_facts(1) [OF k(1)] by (cases "digits10 n") simp_all
  show ?thesis
    using ne k digit_char_facts [OF k(1)] digits10_no_hex [of n]
    by (simp add: parseInt_string_def dw Let_def takeWhile_digits10 radixValue_digits10)
qed

lemma parseInt_string_minus_digits10:
  "parseInt_string (CHR ''-'' # digits10 n) = Some (- int n)"
proof -
  have w: "\<not> isStrWhiteSpace CHR ''-''" by (simp add: isStrWhiteSpace_def)
  show ?thesis
    using digits10_nonempty [of n] digits10_no_hex [of n] w
    by (simp add: parseInt_string_def Let_def takeWhile_digits10 radixValue_digits10)
qed

lemma digits10_0: "digits10 0 = ''0''"
proof -
  have "char_of (48 :: nat) = CHR ''0''" by code_simp
  then show ?thesis by (simp add: digits10.simps)
qed

lemma toString_pos_int:
  assumes "0 < n" "n < 2 ^ 53"
  shows "toString_pos (of_int n) = digits10 (nat n)"
proof -
  have "real_of_int n < of_int (2 ^ 53)" using assms(2) by (simp only: of_int_less_iff)
  then show ?thesis by (simp add: toString_pos_def)
qed

lemma Number_toString_int:
  assumes "\<bar>n\<bar> < 2 ^ 53"
  shows "Number_toString (Fin (of_int n)) =
    (if n = 0 then ''0'' else if n < 0 then CHR ''-'' # digits10 (nat (- n)) else digits10 (nat n))"
proof -
  have "n < 0 \<Longrightarrow> toString_pos (- of_int n) = digits10 (nat (- n))"
    using toString_pos_int [of "- n"] assms by simp
  moreover have "0 < n \<Longrightarrow> toString_pos (of_int n) = digits10 (nat n)"
    using toString_pos_int [of n] assms by simp
  ultimately show ?thesis by (auto simp: Number_toString_def)
qed

lemma parseInt_number:
  assumes "\<bar>n\<bar> < 2 ^ 53"
  shows "parseInt (Some (JNum (Fin (of_int n)))) = Inr (Fin (of_int n))"
proof -
  have "parseInt_string (Number_toString (Fin (of_int n))) = Some n"
    using parseInt_string_digits10 [of 0] parseInt_string_digits10 [of "nat n"]
      parseInt_string_minus_digits10 [of "nat (- n)"]
    by (simp add: Number_toString_int [OF assms] digits10_0)
  then show ?thesis by (simp add: parseInt_def to_number_def fl_of_int [OF assms])
qed

lemma stored_count_int:
  "Math_max (Fin 0) (or_zero (Fin (of_int n))) = Fin (of_int (max 0 n))"
  by (simp add: Math_max_def or_zero_def max_def)

lemma updateTrafficData_numbers:
  assumes "route_of rname = Some r" "\<bar>n\<bar> < 2 ^ 53" "\<bar>m\<bar> < 2 ^ 53"
  shows "updateTrafficData rname (Some (JNum (Fin (of_int n)))) (Some (JNum (Fin (of_int m)))) s =
     Inr (s\<lparr>trafficData := (trafficData s)
              (r := \<lparr>vehicles = Fin (of_int (max 0 n)),
                     heavyVehicles = Fin (of_int (max 0 m))\<rparr>)\<rparr>)"
  using assms(1)
  by (simp add: updateTrafficData_def parseInt_number [OF assms(2)] parseInt_number [OF assms(3)]
      stored_count_int)

lemma ToString_throws_TypeError:
  "ToString j = Inl e \<Longrightarrow> e = TypeError"
  "join_from xs = Inl e \<Longrightarrow> e = TypeError"
  by (induction j and xs rule: ToString_join_from.induct)
     (auto split: if_splits sum.splits)

lemma parseInt_throws_TypeError: "parseInt v = Inl e \<Longrightarrow> e = TypeError"
  by (auto simp: parseInt_def ToString_throws_TypeError split: option.splits sum.splits)

lemma updateTrafficData_throws:
  "route_of rname = Some r \<Longrightarrow> updateTrafficData rname v h s = Inl e \<Longrightarrow> e = TypeError"
  by (auto simp: updateTrafficData_def parseInt_throws_TypeError split: sum.splits)

section \<open>Traffic updates\<close>

lemma stored_count_ge: "ge (Math_max (Fin 0) (or_zero a)) (Fin 0)"
  by (cases a) (auto simp: Math_max_def or_zero_def)

lemma transition_from_green_ignores_traffic:
  assumes "\<not> isInYellow s"
  shows "executePhaseTransition now (s\<lparr>trafficData := td\<rparr>) =
         (executePhaseTransition now s)\<lparr>trafficData := td\<rparr>"
  using assms by (simp add: executePhaseTransition_def applyPhaseSignals_def Let_def)

lemma transition_from_yellow_duration:
  assumes "isInYellow s"
  shows "currentPhaseDuration (executePhaseTransition now s) =
         calculateGreenDuration
           (calculateAllDemands (trafficData s) A) (calculateAllDemands (trafficData s) B)
           (calculateAllDemands (trafficData s) C) (calculateAllDemands (trafficData s) D)
           (currentPhase (executePhaseTransition now s))"
  using assms
  by (simp add: executePhaseTransition_def applyPhaseSignals_def Let_def calculateDemands_def)

lemma updateTrafficData_returned:
  assumes valid: "route_of rname = Some r"
    and green: "\<not> isInYellow s"
    and upd: "updateTrafficData rname v h s = Inr s'"
  shows "currentPhase s' = currentPhase s \<and>
         currentPhaseDuration s' = currentPhaseDuration s \<and>
         phaseStartTime s' = phaseStartTime s \<and>
         signalState s' = signalState s \<and>
         s' = s\<lparr>trafficData := (trafficData s)(r := trafficData s' r)\<rparr> \<and>
         ge (vehicles (trafficData s' r)) (Fin 0) \<and>
         ge (heavyVehicles (trafficData s' r)) (Fin 0) \<and>
         executePhaseTransition now s' =
           (executePhaseTransition now s)\<lparr>trafficData := trafficData s'\<rparr> \<and>
         currentPhaseDuration (executePhaseTransition now' (executePhaseTransition now s')) =
           calculateGreenDuration
             (calculateAllDemands (trafficData s') A) (calculateAllDemands (trafficData s') B)
             (calculateAllDemands (trafficData s') C) (calculateAllDemands (trafficData s') D)
             (currentPhase (executePhaseTransition now' (executePhaseTransition now s')))"
proof -
  from upd valid obtain pv ph where
    s': "s' = s\<lparr>trafficData := (trafficData s)
                 (r := \<lparr>vehicles = Math_max (Fin 0) (or_zero pv),
                        heavyVehicles = Math_max (Fin 0) (or_zero ph)\<rparr>)\<rparr>"
    by (auto simp: updateTrafficData_def split: sum.splits)
  have g': "\<not> isInYellow s'" using green s' by simp
  have y: "isInYellow (executePhaseTransition now s')"
    using g' by (simp add: executePhaseTransition_def applyPhaseSignals_def Let_def)
  have td: "trafficData (executePhaseTransition now s') = trafficData s'"
    by (simp add: executePhaseTransition_def applyPhaseSignals_def Let_def)
  have e: "executePhaseTransition now s' =
           (executePhaseTransition now s)\<lparr>trafficData := trafficData s'\<rparr>"
    using transition_from_green_ignores_traffic [OF green, of now "trafficData s'"] s' by simp
  show ?thesis
    using transition_from_yellow_duration [OF y, of now'] e
    by (simp add: s' td stored_count_ge)
qed

text \<open>
  Claim C8. For a valid route, while a green phase is in progress:
  \<open>updateTrafficData\<close> with whole numbers of less than \<open>2 ^ 53\<close> in absolute value for
  the counts returns, and overwrites the sample of that route by the counts, a negative
  count made zero. With any values for the counts, the call either throws a TypeError
  (nothing is assigned) or returns a state with the phase, its duration, its start time
  and the signals unchanged, in which only the sample of that route is overwritten, by
  counts that are at least zero; the green-to-yellow transition that follows does not read
  the traffic (it gives the same state but for the traffic data), and the yellow-to-green
  transition after it computes the green duration from the demands of the updated traffic
  data.
\<close>

theorem updateTrafficData_mid_green:
  assumes valid: "route_of rname = Some r"
    and green: "\<not> isInYellow s"
    and safe: "\<bar>n\<bar> < 2 ^ 53" "\<bar>m\<bar> < 2 ^ 53"
  shows "updateTrafficData rname (Some (JNum (Fin (of_int n)))) (Some (JNum (Fin (of_int m)))) s =
           Inr (s\<lparr>trafficData := (trafficData s)
                    (r := \<lparr>vehicles = Fin (of_int (max 0 n)),
                           heavyVehicles = Fin (of_int (max 0 m))\<rparr>)\<rparr>) \<and>
         (case updateTrafficData rname v h s of
            Inl e \<Rightarrow> e = TypeError
          | Inr s' \<Rightarrow>
              currentPhase s' = currentPhase s \<and>
              currentPhaseDuration s' = currentPhaseDuration s \<and>
              phaseStartTime s' = phaseStartTime s \<and>
              signalState s' = signalState s \<and>
              s' = s\<lparr>trafficData := (trafficData s)(r := trafficData s' r)\<rparr> \<and>
              ge (vehicles (trafficData s' r)) (Fin 0) \<and>
              ge (heavyVehicles (trafficData s' r)) (Fin 0) \<and>
              executePhaseTransition now s' =
                (executePhaseTransition now s)\<lparr>trafficData := trafficData s'\<rparr> \<and>
              currentPhaseDuration (executePhaseTransition now' (executePhaseTransition now s')) =
                calculateGreenDuration
                  (calculateAllDemands (trafficData s') A) (calculateAllDemands (trafficData s') B)
                  (calculateAllDemands (trafficData s') C) (calculateAllDemands (trafficData s') D)
                  (currentPhase (executePhaseTransition now' (executePhaseTransition now s'))))"
proof -
  have num: "updateTrafficData rname (Some (JNum (Fin (of_int n)))) (Some (JNum (Fin (of_int m)))) s =
           Inr (s\<lparr>trafficData := (trafficData s)
                    (r := \<lparr>vehicles = Fin (of_int (max 0 n)),
                           heavyVehicles = Fin (of_int (max 0 m))\<rparr>)\<rparr>)"
    using valid safe by (rule updateTrafficData_numbers)
  show ?thesis
  proof (cases "updateTrafficData rname v h s")
    case (Inl e)
    from num updateTrafficData_throws [OF valid Inl] show ?thesis
      unfolding Inl sum.case by (rule conjI)
  next
    case (Inr s')
    note fr = updateTrafficData_returned [OF valid green Inr, of now now']
    from num fr show ?thesis
      unfolding Inr sum.case by (rule conjI)
  qed
qed

theorem updateTrafficData_mid_green_witness:
  "route_of ''A'' = Some A \<and> \<not> isInYellow (constructor 0) \<and>
   \<bar>30 :: int\<bar> < 2 ^ 53 \<and> \<bar>- 5 :: int\<bar> < 2 ^ 53 \<and>
   updateTrafficData ''A'' (Some (JNum (Fin 30))) (Some (JNum (Fin (- 5)))) (constructor 0) =
     Inr ((constructor 0)\<lparr>trafficData :=
            (trafficData (constructor 0))(A := \<lparr>vehicles = Fin 30, heavyVehicles = Fin 0\<rparr>)\<rparr>)"
proof -
  have v: "route_of ''A'' = Some A" by (simp add: route_of_def)
  have g: "\<not> isInYellow (constructor 0)" by (simp add: constructor_def)
  have n: "\<bar>30 :: int\<bar> < 2 ^ 53" by simp
  have m: "\<bar>- 5 :: int\<bar> < 2 ^ 53" by simp
  note t = updateTrafficData_mid_green [OF v g n m]
  from t have "updateTrafficData ''A'' (Some (JNum (Fin (of_int 30)))) (Some (JNum (Fin (of_int (- 5)))))
      (constructor 0) =
     Inr ((constructor 0)\<lparr>trafficData :=
            (trafficData (constructor 0))(A := \<lparr>vehicles = Fin (of_int (max 0 30)),
               heavyVehicles = Fin (of_int (max 0 (- 5)))\<rparr>)\<rparr>)"
    by (rule conjunct1)
  then have "updateTrafficData ''A'' (Some (JNum (Fin 30))) (Some (JNum (Fin (- 5)))) (constructor 0) =
     Inr ((constructor 0)\<lparr>trafficData :=
            (trafficData (constructor 0))(A := \<lparr>vehicles = Fin 30, heavyVehicles = Fin 0\<rparr>)\<rparr>)"
    by simp
  with v g n m show ?thesis by blast
qed

section \<open>The cycle of the phases\<close>

lemma dbl_powi:
  assumes "- 1022 \<le> e" "e \<le> 1023"
  shows "dbl (2 powi e)"
proof -
  have "(0::int) < 2 ^ 52 \<and> (2::int) ^ 52 < 2 ^ 53 \<and> - 1022 \<le> e \<and> e \<le> 1023 \<and>
      (2::real) powi e = of_int (2 ^ 52) * 2 powi (e - 52)"
    using assms two_powi_52 [of e] by simp
  then show ?thesis unfolding dbl_def by blast
qed

lemma count_limit_pos: "0 < count_limit"
  unfolding count_limit_def by (rule two_powi_pos)

lemma count_limit_ge: "2 ^ 53 \<le> count_limit"
proof -
  have "(2::real) powi 53 \<le> 2 powi 1000" by (rule two_powi_mono) simp
  then show ?thesis by (simp add: count_limit_def)
qed

lemma limit_times:
  "4 * count_limit = 2 powi (1000 + 2)" "8 * count_limit = 2 powi (1000 + 3)"
  "16 * count_limit = 2 powi (1000 + 4)"
proof -
  have "(2::real) powi (1000 + 2) = 2 powi 1000 * 2 powi 2" by (rule two_powi_add)
  moreover have "(2::real) powi 2 = 4" by simp
  ultimately show "4 * count_limit = 2 powi (1000 + 2)" by (simp only: count_limit_def)
  have "(2::real) powi (1000 + 3) = 2 powi 1000 * 2 powi 3" by (rule two_powi_add)
  moreover have "(2::real) powi 3 = 8" by simp
  ultimately show "8 * count_limit = 2 powi (1000 + 3)" by (simp only: count_limit_def)
  have "(2::real) powi (1000 + 4) = 2 powi 1000 * 2 powi 4" by (rule two_powi_add)
  moreover have "(2::real) powi 4 = 16" by simp
  ultimately show "16 * count_limit = 2 powi (1000 + 4)" by (simp only: count_limit_def)
qed

lemma dbl_limits:
  "dbl count_limit" "dbl (4 * count_limit)" "dbl (8 * count_limit)" "dbl (16 * count_limit)"
proof -
  show "dbl count_limit" unfolding count_limit_def by (rule dbl_powi) simp_all
  have "dbl (2 powi (1000 + 2))" by (rule dbl_powi) simp_all
  then show "dbl (4 * count_limit)" unfolding limit_times .
  have "dbl (2 powi (1000 + 3))" by (rule dbl_powi) simp_all
  then show "dbl (8 * count_limit)" unfolding limit_times .
  have "dbl (2 powi (1000 + 4))" by (rule dbl_powi) simp_all
  then show "dbl (16 * count_limit)" unfolding limit_times .
qed

lemma stored_small:
  assumes "\<not> ge a (Fin count_limit)"
  shows "\<exists>x. Math_max (Fin 0) (or_zero a) = Fin x \<and> 0 \<le> x \<and> x \<le> count_limit"
  using assms count_limit_pos by (cases a) (auto simp: Math_max_def or_zero_def)

lemma updateTrafficData_frame:
  assumes "updateTrafficData rname v h s = Inr s'"
  shows "currentPhase s' = currentPhase s" "isInYellow s' = isInYellow s"
    "currentPhaseDuration s' = currentPhaseDuration s" "phaseStartTime s' = phaseStartTime s"
    "signalState s' = signalState s" "lastBroadcastState s' = lastBroadcastState s"
  using assms by (auto simp: updateTrafficData_def split: option.splits sum.splits)

lemma updateTrafficData_bounded:
  assumes b: "bounded_traffic s" and v: "small_count v" and h: "small_count h"
    and u: "updateTrafficData rname v h s = Inr s'"
  shows "bounded_traffic s'"
proof -
  from u obtain r pv ph where r: "route_of rname = Some r"
    and pv: "parseInt v = Inr pv" and ph: "parseInt h = Inr ph"
    and s': "s' = s\<lparr>trafficData := (trafficData s)
                 (r := \<lparr>vehicles = Math_max (Fin 0) (or_zero pv),
                        heavyVehicles = Math_max (Fin 0) (or_zero ph)\<rparr>)\<rparr>"
    by (auto simp: updateTrafficData_def split: option.splits sum.splits)
  have "\<not> ge pv (Fin count_limit)" using v pv by (simp add: small_count_def)
  from stored_small [OF this] obtain x where
    x: "Math_max (Fin 0) (or_zero pv) = Fin x" "0 \<le> x" "x \<le> count_limit" by blast
  have "\<not> ge ph (Fin count_limit)" using h ph by (simp add: small_count_def)
  from stored_small [OF this] obtain y where
    y: "Math_max (Fin 0) (or_zero ph) = Fin y" "0 \<le> y" "y \<le> count_limit" by blast
  show ?thesis
    unfolding bounded_traffic_def
  proof
    fix r'
    show "\<exists>v h. vehicles (trafficData s' r') = Fin v \<and> heavyVehicles (trafficData s' r') = Fin h \<and>
             0 \<le> v \<and> v \<le> count_limit \<and> 0 \<le> h \<and> h \<le> count_limit"
    proof (cases "r' = r")
      case True
      then show ?thesis using x y by (simp add: s')
    next
      case False
      then show ?thesis using b by (simp add: s' bounded_traffic_def)
    qed
  qed
qed

lemma apply_updates_frame:
  "currentPhase (apply_updates us s) = currentPhase s \<and>
   isInYellow (apply_updates us s) = isInYellow s \<and>
   currentPhaseDuration (apply_updates us s) = currentPhaseDuration s \<and>
   phaseStartTime (apply_updates us s) = phaseStartTime s"
proof (induction us s rule: apply_updates.induct)
  case (1 s)
  then show ?case by simp
next
  case (2 rname v h us s)
  show ?case
  proof (cases "updateTrafficData rname v h s")
    case (Inl e)
    with 2 show ?thesis by simp
  next
    case (Inr s')
    with 2 updateTrafficData_frame [OF Inr] show ?thesis by simp
  qed
qed

lemma apply_updates_bounded:
  assumes "list_all (\<lambda>u. small_count (fst (snd u)) \<and> small_count (snd (snd u))) us"
    and "bounded_traffic s"
  shows "bounded_traffic (apply_updates us s)"
  using assms
proof (induction us s rule: apply_updates.induct)
  case (1 s)
  then show ?case by simp
next
  case (2 rname v h us s)
  show ?case
  proof (cases "updateTrafficData rname v h s")
    case (Inl e)
    with 2 show ?thesis by simp
  next
    case (Inr s')
    have "bounded_traffic s'"
      using updateTrafficData_bounded [OF "2.prems"(2) _ _ Inr] "2.prems"(1) by simp
    with 2 Inr show ?thesis by simp
  qed
qed

lemma HEAVY_VEHICLE_value: "HEAVY_VEHICLE = Fin (5 / 2)"
  using fl_exact [OF dbl_scaled [of 5 "- 1"]] by (simp add: HEAVY_VEHICLE_def power_int_minus)

lemma demand_bound:
  assumes "0 \<le> v" "v \<le> count_limit" "0 \<le> h" "h \<le> count_limit"
  shows "\<exists>d. calculateDemand (Fin v) (Fin h) = Fin d \<and> 0 \<le> d \<and> d \<le> 8 * count_limit"
proof -
  have "\<exists>a. fl v = Fin a \<and> 0 \<le> a \<and> a \<le> count_limit"
    using assms dbl_limits(1) by (intro fl_nonneg_le) simp_all
  then obtain a where a: "fl v = Fin a" "0 \<le> a" "a \<le> count_limit" by blast
  have "\<exists>b. fl (h * (5 / 2)) = Fin b \<and> 0 \<le> b \<and> b \<le> 4 * count_limit"
    using assms dbl_limits(2) by (intro fl_nonneg_le) simp_all
  then obtain b where b: "fl (h * (5 / 2)) = Fin b" "0 \<le> b" "b \<le> 4 * count_limit" by blast
  have "\<exists>d. fl (a + b) = Fin d \<and> 0 \<le> d \<and> d \<le> 8 * count_limit"
    using a b dbl_limits(3) by (intro fl_nonneg_le) simp_all
  then obtain d where d: "fl (a + b) = Fin d" "0 \<le> d" "d \<le> 8 * count_limit" by blast
  have "calculateDemand (Fin v) (Fin h) = Fin d"
    unfolding calculateDemand_def Let_def NORMAL_VEHICLE_def HEAVY_VEHICLE_value
    using a(1) b(1) d(1) by simp
  then show ?thesis using d by blast
qed

lemma demands_bounded:
  assumes "bounded_traffic s"
  shows "\<exists>d. calculateDemands s r = Fin d \<and> 0 \<le> d \<and> d \<le> 8 * count_limit"
proof -
  from assms obtain v h where "vehicles (trafficData s r) = Fin v"
    "heavyVehicles (trafficData s r) = Fin h" "0 \<le> v" "v \<le> count_limit" "0 \<le> h"
    "h \<le> count_limit"
    unfolding bounded_traffic_def by blast
  then show ?thesis
    using demand_bound [of v h] by (simp add: calculateDemands_def calculateAllDemands_def)
qed

lemma pair_sum_finite:
  assumes "0 \<le> x" "x \<le> 8 * count_limit" "0 \<le> y" "y \<le> 8 * count_limit"
  shows "fadd (nonneg (Fin x)) (nonneg (Fin y)) \<noteq> PInf"
proof -
  have "\<exists>d. fl (x + y) = Fin d \<and> 0 \<le> d \<and> d \<le> 16 * count_limit"
    using assms dbl_limits(4) by (intro fl_nonneg_le) simp_all
  then show ?thesis using assms by (auto simp: nonneg_Fin max_def)
qed

lemma pair1Demand_finite:
  assumes "bounded_traffic s"
  shows "pair1Demand (calculateDemands s A) (calculateDemands s B) (calculateDemands s C)
           (calculateDemands s D) ph \<noteq> PInf"
proof -
  obtain a where a: "calculateDemands s A = Fin a" "0 \<le> a" "a \<le> 8 * count_limit"
    using demands_bounded [OF assms, of A] by blast
  obtain b where b: "calculateDemands s B = Fin b" "0 \<le> b" "b \<le> 8 * count_limit"
    using demands_bounded [OF assms, of B] by blast
  obtain c where c: "calculateDemands s C = Fin c" "0 \<le> c" "c \<le> 8 * count_limit"
    using demands_bounded [OF assms, of C] by blast
  obtain d where d: "calculateDemands s D = Fin d" "0 \<le> d" "d \<le> 8 * count_limit"
    using demands_bounded [OF assms, of D] by blast
  show ?thesis
    using pair_sum_finite [OF a(2,3) c(2,3)] pair_sum_finite [OF b(2,3) d(2,3)]
    by (simp add: pair1Demand_def a(1) b(1) c(1) d(1))
qed

lemma transition_phase:
  "currentPhase (executePhaseTransition now s) =
     (if isInYellow s
      then (if currentPhase s = PHASE_AC_YELLOW then PHASE_BD_GREEN else PHASE_AC_GREEN)
      else (if currentPhase s = PHASE_AC_GREEN then PHASE_AC_YELLOW else PHASE_BD_YELLOW))"
  and transition_yellow: "isInYellow (executePhaseTransition now s) = (\<not> isInYellow s)"
  and transition_start: "phaseStartTime (executePhaseTransition now s) = now"
  and transition_traffic: "trafficData (executePhaseTransition now s) = trafficData s"
  by (simp_all add: executePhaseTransition_def applyPhaseSignals_def Let_def)

lemma transition_bounded:
  "bounded_traffic (executePhaseTransition now s) = bounded_traffic s"
  by (simp add: bounded_traffic_def transition_traffic)

lemma transition_duration:
  assumes "bounded_traffic s"
  shows "\<exists>n. currentPhaseDuration (executePhaseTransition now s) = Fin (of_int n) \<and>
           0 \<le> n \<and> n \<le> 60"
proof (cases "isInYellow s")
  case True
  from calculateGreenDuration_range [OF pair1Demand_finite [OF assms]]
  obtain n where "calculateGreenDuration (calculateDemands s A) (calculateDemands s B)
      (calculateDemands s C) (calculateDemands s D)
      (if currentPhase s = PHASE_AC_YELLOW then PHASE_BD_GREEN else PHASE_AC_GREEN) =
      Fin (of_int n)" "5 \<le> n" "n \<le> 60"
    by blast
  then have "currentPhaseDuration (executePhaseTransition now s) = Fin (of_int n) \<and>
           0 \<le> n \<and> n \<le> 60"
    using True by (simp add: executePhaseTransition_def applyPhaseSignals_def Let_def)
  then show ?thesis by blast
next
  case False
  then have "currentPhaseDuration (executePhaseTransition now s) = Fin (of_int 3)"
    by (simp add: executePhaseTransition_def applyPhaseSignals_def Let_def YELLOW_DURATION_def)
  then show ?thesis by (intro exI [of _ 3]) simp
qed

lemma updatePhase_at_boundary:
  assumes d: "currentPhaseDuration s = Fin (of_int n)" "0 \<le> n" "n \<le> 60"
    and t: "0 \<le> phaseStartTime s" "phaseStartTime s + 60000 \<le> MAX_TIME"
  shows "boundary s = Some (phaseStartTime s + 1000 * n)"
    and "updatePhase (phaseStartTime s + 1000 * n) now' s = (True, executePhaseTransition now' s)"
proof -
  have "1000 * real_of_int n = of_int (1000 * n)" by simp
  then have "\<lfloor>1000 * real_of_int n\<rfloor> = 1000 * n" by (simp only: floor_of_int)
  then show "boundary s = Some (phaseStartTime s + 1000 * n)"
    by (simp add: boundary_def d(1))
  have "elapsedTime (phaseStartTime s + 1000 * n) s = Fin (of_int n)"
    using d(2,3) t by (intro elapsedTime_whole) (simp_all add: MAX_TIME_def)
  then show "updatePhase (phaseStartTime s + 1000 * n) now' s =
      (True, executePhaseTransition now' s)"
    by (simp add: updatePhase_def d(1))
qed

lemma cycle_step:
  assumes "k < 4" "currentPhase s = phase_cycle ! k" "isInYellow s = odd k"
  shows "currentPhase (executePhaseTransition now s) = phase_cycle ! (Suc k mod 4)"
    and "isInYellow (executePhaseTransition now s) = odd (Suc k mod 4)"
proof -
  from assms(1) consider "k = 0" | "k = 1" | "k = 2" | "k = 3" by linarith
  then show "currentPhase (executePhaseTransition now s) = phase_cycle ! (Suc k mod 4)"
    using assms(2,3) by cases (simp_all add: transition_phase phase_cycle_def)
  from assms(1) consider "k = 0" | "k = 1" | "k = 2" | "k = 3" by linarith
  then show "isInYellow (executePhaseTransition now s) = odd (Suc k mod 4)"
    using assms(3) by cases (simp_all add: transition_yellow)
qed

lemma idx4: "Suc (Suc k mod 4 + i) mod 4 = Suc (Suc (k + i)) mod 4"
proof -
  have "(Suc k mod 4 + Suc i) mod 4 = (Suc k + Suc i) mod 4"
    by (rule mod_add_left_eq)
  then show ?thesis by simp
qed

lemma trace_shift:
  "map (\<lambda>i. (True, phase_cycle ! ((k + Suc i) mod 4))) [0..<Suc n] =
     (True, phase_cycle ! (Suc k mod 4)) #
     map (\<lambda>i. (True, phase_cycle ! ((Suc k mod 4 + Suc i) mod 4))) [0..<n]"
proof -
  have "map (\<lambda>i. (True, phase_cycle ! ((k + Suc i) mod 4))) [0..<Suc n] =
     (True, phase_cycle ! ((k + Suc 0) mod 4)) #
     map (\<lambda>i. (True, phase_cycle ! ((k + Suc (Suc i)) mod 4))) [0..<n]"
    by (rule map_upt_Suc)
  then show ?thesis by (simp only: idx4 add_Suc_right add_0_right)
qed

lemma latest_ge: "list_all small_step steps \<Longrightarrow> t \<le> latest t steps"
proof (induction steps)
  case Nil
  then show ?case by (simp add: latest_def)
next
  case (Cons st steps)
  then have "0 \<le> snd st" "t \<le> latest t steps" by (simp_all add: small_step_def)
  then show ?case by (simp add: latest_def)
qed

lemma latest_Cons: "latest t (st # steps) = latest (t + 60000 + snd st) steps"
  by (simp add: latest_def)

lemma run_boundaries_cycle:
  assumes "k < 4" "currentPhase s = phase_cycle ! k" "isInYellow s = odd k"
    and "bounded_traffic s" "currentPhaseDuration s = Fin (of_int n)" "0 \<le> n" "n \<le> 60"
    and "0 \<le> phaseStartTime s" "list_all small_step steps"
    and "latest (phaseStartTime s) steps \<le> MAX_TIME"
  shows "\<exists>s'. run_boundaries steps s =
           Some (map (\<lambda>i. (True, phase_cycle ! ((k + Suc i) mod 4))) [0..<length steps], s') \<and>
         currentPhase s' = phase_cycle ! ((k + length steps) mod 4)"
  using assms
proof (induction steps arbitrary: s k n)
  case Nil
  then show ?case by simp
next
  case (Cons st steps)
  obtain us lag where st: "st = (us, lag)" by (cases st)
  have first: "small_step st" and rest: "list_all small_step steps"
    using Cons.prems(9) by simp_all
  have lag: "0 \<le> lag"
    and us: "list_all (\<lambda>u. small_count (fst (snd u)) \<and> small_count (snd (snd u))) us"
    using first by (simp_all add: st small_step_def)
  define s1 where "s1 = apply_updates us s"
  define t where "t = phaseStartTime s"
  have p1: "currentPhase s1 = phase_cycle ! k" and y1: "isInYellow s1 = odd k"
    and d1: "currentPhaseDuration s1 = Fin (of_int n)" and t1: "phaseStartTime s1 = t"
    using Cons.prems apply_updates_frame [of us s] by (simp_all add: s1_def t_def)
  have b1: "bounded_traffic s1"
    unfolding s1_def using us Cons.prems(4) by (rule apply_updates_bounded)
  have l: "latest (t + 60000 + lag) steps \<le> MAX_TIME"
    using Cons.prems(10) by (simp add: latest_Cons st t_def)
  have l0: "t + 60000 + lag \<le> latest (t + 60000 + lag) steps"
    using rest by (rule latest_ge)
  have t0: "0 \<le> t" using Cons.prems(8) by (simp add: t_def)
  have tm: "phaseStartTime s1 + 60000 \<le> MAX_TIME" using l l0 lag t1 by simp
  define now where "now = t + 1000 * n"
  define s2 where "s2 = executePhaseTransition (now + lag) s1"
  have bd: "boundary s1 = Some now"
    using updatePhase_at_boundary(1) [OF d1 Cons.prems(6,7) _ tm] t0 t1 by (simp add: now_def)
  have up: "updatePhase now (now + lag) s1 = (True, s2)"
    using updatePhase_at_boundary(2) [OF d1 Cons.prems(6,7) _ tm, of "now + lag"] t0 t1
    by (simp add: now_def s2_def)
  have p2: "currentPhase s2 = phase_cycle ! (Suc k mod 4)"
    and y2: "isInYellow s2 = odd (Suc k mod 4)"
    unfolding s2_def using cycle_step [OF Cons.prems(1) p1 y1] by simp_all
  have k2: "Suc k mod 4 < 4" by simp
  have b2: "bounded_traffic s2" using b1 by (simp add: s2_def transition_bounded)
  obtain n' where d2: "currentPhaseDuration s2 = Fin (of_int n')" "0 \<le> n'" "n' \<le> 60"
    using transition_duration [OF b1, of "now + lag"] unfolding s2_def by blast
  have t2: "phaseStartTime s2 = now + lag" by (simp add: s2_def transition_start)
  have t2': "0 \<le> phaseStartTime s2" using t0 lag Cons.prems(6) by (simp add: t2 now_def)
  have "latest (now + lag) steps = now + lag + (latest (t + 60000 + lag) steps - (t + 60000 + lag))"
    by (simp add: latest_def)
  then have l2: "latest (phaseStartTime s2) steps \<le> MAX_TIME"
    using l Cons.prems(7) by (simp add: t2 now_def)
  from Cons.IH [OF k2 p2 y2 b2 d2 t2' rest l2] obtain s' where
    ih: "run_boundaries steps s2 =
           Some (map (\<lambda>i. (True, phase_cycle ! ((Suc k mod 4 + Suc i) mod 4))) [0..<length steps], s')"
      "currentPhase s' = phase_cycle ! ((Suc k mod 4 + length steps) mod 4)"
    by blast
  have run: "run_boundaries (st # steps) s =
      Some ((True, phase_cycle ! (Suc k mod 4)) #
            map (\<lambda>i. (True, phase_cycle ! ((Suc k mod 4 + Suc i) mod 4))) [0..<length steps], s')"
    by (simp add: st s1_def [symmetric] bd up ih(1) p2)
  have a: "run_boundaries (st # steps) s =
      Some (map (\<lambda>i. (True, phase_cycle ! ((k + Suc i) mod 4))) [0..<length (st # steps)], s')"
  proof -
    have "length (st # steps) = Suc (length steps)" by simp
    then show ?thesis by (simp only: run trace_shift)
  qed
  have "(Suc k mod 4 + length steps) mod 4 = (Suc k + length steps) mod 4"
    by (rule mod_add_left_eq)
  then have b: "currentPhase s' = phase_cycle ! ((k + length (st # steps)) mod 4)"
    using ih(2) by simp
  from a b show ?case by blast
qed

lemma bounded_traffic_constructor: "bounded_traffic (constructor t0)"
  using count_limit_pos by (simp add: bounded_traffic_def constructor_def no_traffic_def)

text \<open>
  Claim C5. From the state of the constructor, with every call of \<open>updatePhase\<close> made
  at the boundary of the phase in progress, and any traffic updates in between whose
  counts are read as less than \<open>2 ^ 1000\<close>, while the clock stays within the time
  values: every phase has a boundary, every call returns true and the phase after
  transition i + 1 is the element (i + 1) mod 4 of the cycle PHASE_AC_GREEN,
  PHASE_AC_YELLOW, PHASE_BD_GREEN, PHASE_BD_YELLOW: each transition moves to the next
  phase of the cycle, none is skipped and none repeated.
\<close>

theorem phases_in_cyclic_order:
  assumes "0 \<le> t0" "list_all small_step steps" "latest t0 steps \<le> MAX_TIME"
  shows "map_option fst (run_boundaries steps (constructor t0)) =
           Some (map (\<lambda>i. (True, phase_cycle ! (Suc i mod 4))) [0..<length steps]) \<and>
         map_option (\<lambda>r. currentPhase (snd r)) (run_boundaries steps (constructor t0)) =
           Some (phase_cycle ! (length steps mod 4)) \<and>
         currentPhase (constructor t0) = phase_cycle ! 0 \<and>
         phase_cycle = [PHASE_AC_GREEN, PHASE_AC_YELLOW, PHASE_BD_GREEN, PHASE_BD_YELLOW]"
proof -
  have i: "currentPhase (constructor t0) = phase_cycle ! 0"
    "isInYellow (constructor t0) = odd (0::nat)"
    "currentPhaseDuration (constructor t0) = Fin (of_int 5)"
    "phaseStartTime (constructor t0) = t0"
    by (simp_all add: constructor_def phase_cycle_def MIN_GREEN_def)
  have z: "(0::nat) < 4" "(0::int) \<le> 5" "(5::int) \<le> 60" by simp_all
  from run_boundaries_cycle [OF z(1) i(1,2) bounded_traffic_constructor i(3) z(2,3), of steps]
    assms i(4)
  obtain s' where "run_boundaries steps (constructor t0) =
           Some (map (\<lambda>i. (True, phase_cycle ! ((0 + Suc i) mod 4))) [0..<length steps], s')"
    "currentPhase s' = phase_cycle ! ((0 + length steps) mod 4)"
    by auto
  then show ?thesis using i(1) by (simp add: phase_cycle_def)
qed

theorem phases_in_cyclic_order_witness:
  "(0::int) \<le> 0 \<and>
   list_all small_step
     [([(''A'', Some (JNum (Fin 30)), Some (JNum (Fin 2)))], 0), ([], 10), ([], 0)] \<and>
   latest 0 [([(''A'', Some (JNum (Fin 30)), Some (JNum (Fin 2)))], 0), ([], 10), ([], 0)]
     \<le> MAX_TIME \<and>
   map_option fst (run_boundaries
       [([(''A'', Some (JNum (Fin 30)), Some (JNum (Fin 2)))], 0), ([], 10), ([], 0)]
       (constructor 0)) =
     Some [(True, PHASE_AC_YELLOW), (True, PHASE_BD_GREEN), (True, PHASE_BD_YELLOW)]"
proof -
  define steps :: "((string \<times> json option \<times> json option) list \<times> int) list"
    where "steps = [([(''A'', Some (JNum (Fin 30)), Some (JNum (Fin 2)))], 0), ([], 10), ([], 0)]"
  have c: "(30::real) < count_limit" "(2::real) < count_limit"
    using count_limit_ge by simp_all
  have p: "parseInt (Some (JNum (Fin 30))) = Inr (Fin 30)"
    "parseInt (Some (JNum (Fin 2))) = Inr (Fin 2)"
    using parseInt_number [of 30] parseInt_number [of 2] by simp_all
  have s: "list_all small_step steps"
    using c by (simp add: steps_def small_step_def small_count_def p)
  have l: "latest 0 steps \<le> MAX_TIME"
    by (simp add: steps_def latest_def MAX_TIME_def)
  have z: "(0::int) \<le> 0" by simp
  have len: "length steps = 3" by (simp add: steps_def)
  have m: "map (\<lambda>i. (True, phase_cycle ! (Suc i mod 4))) [0..<3] =
      [(True, PHASE_AC_YELLOW), (True, PHASE_BD_GREEN), (True, PHASE_BD_YELLOW)]"
    by (simp add: upt_rec phase_cycle_def)
  have "map_option fst (run_boundaries steps (constructor 0)) =
      Some (map (\<lambda>i. (True, phase_cycle ! (Suc i mod 4))) [0..<length steps])"
    using phases_in_cyclic_order [OF z s l] by (rule conjunct1)
  then have r: "map_option fst (run_boundaries steps (constructor 0)) =
      Some [(True, PHASE_AC_YELLOW), (True, PHASE_BD_GREEN), (True, PHASE_BD_YELLOW)]"
    by (simp only: len m)
  from z s l r show ?thesis unfolding steps_def by (intro conjI)
qed

section \<open>Broadcast targets\<close>

lemma broadcast_targets_all_active:
  "targetClientIds None [] m = map cid (getActiveClients m)"
  by (simp add: targetClientIds_def)

lemma getSubscribedClients_null:
  "getSubscribedClients None m =
     map cid (filter (\<lambda>c. isActive c \<and> subscribedRoutes c \<noteq> []) (map snd (clients m)))"
  by (simp add: getSubscribedClients_def getSubscriptions_def cong: conj_cong)

text \<open>
  Claim C1 fails on the code. A client connects and never subscribes; the first phase
  transition changes the signals, and the broadcast that follows writes an unsolicited STATUS
  frame to that client. \<open>getSubscribedClients(null)\<close> returns no client, as the claim
  says, but \<open>broadcastMessage\<close> with no routes argument does not use it: its targets
  are all active clients.
\<close>

theorem broadcast_reaches_unsubscribed_client:
  "let srv1 = snd (handleNewConnection \<lparr>written = [], writeFails = False, destroyed = False\<rparr> 0
                    (new_server 0));
       srv2 = phaseUpdateTick 5000 5000 srv1;
       srv3 = broadcastTick 5500 srv2
   in subscriptions_of 1 srv2 = [] \<and>
      getSubscribedClients None (clientManager srv2) = [] \<and>
      targetClientIds None [] (clientManager srv2) = [1] \<and>
      frames_of 1 srv2 = [Frame STATUS 0 (PWelcome 1)] \<and>
      subscriptions_of 1 srv3 = [] \<and>
      frames_of 1 srv3 =
        [Frame STATUS 0 (PWelcome 1),
         Frame STATUS 5500 (PPhase (getPhaseInfo 5500 (signalController srv3)))]"
proof -
  define srv1 where "srv1 = snd (handleNewConnection \<lparr>written = [], writeFails = False, destroyed = False\<rparr> 0
                    (new_server 0))"
  define c1 where "c1 = (new_client 1 \<lparr>written = [Frame STATUS 0 (PWelcome 1)], writeFails = False, destroyed = False\<rparr> 0)"
  have s1: "srv1 = \<lparr>signalController = constructor 0,
                    clientManager = \<lparr>clients = [(1, c1)], nextClientId = 2\<rparr>\<rparr>"
    by (simp add: srv1_def c1_def handleNewConnection_def new_server_def addClient_def new_manager_def
        new_client_def formatMessage_def Let_def)
  define k2 where "k2 = executePhaseTransition 5000 (constructor 0)"
  define srv2 where "srv2 = phaseUpdateTick 5000 5000 srv1"
  have s2: "srv2 = \<lparr>signalController = k2, clientManager = \<lparr>clients = [(1, c1)], nextClientId = 2\<rparr>\<rparr>"
    by (simp add: srv2_def s1 k2_def phaseUpdateTick_def updatePhase_5000)
  have sig2: "signalState k2 = all_red(A := YELLOW, C := YELLOW)"
    by (simp add: k2_def executePhaseTransition_def applyPhaseSignals_def constructor_def Let_def)
  have lb2: "lastBroadcastState k2 = JSON_stringify all_red"
    by (simp add: k2_def executePhaseTransition_def applyPhaseSignals_def constructor_def Let_def)
  have chg: "hasStateChanged k2 = (True, k2\<lparr>lastBroadcastState := JSON_stringify (signalState k2)\<rparr>)"
    by (simp add: hasStateChanged_def Let_def sig2 lb2 JSON_stringify_def quoted_def signal_name_def
        all_red_def)
  define k3 where "k3 = k2\<lparr>lastBroadcastState := JSON_stringify (signalState k2)\<rparr>"
  define srv3 where "srv3 = broadcastTick 5500 srv2"
  have act: "isActive c1" "writeFails (sock c1) = False" "cid c1 = 1" "subscribedRoutes c1 = []"
    "written (sock c1) = [Frame STATUS 0 (PWelcome 1)]"
    by (simp_all add: c1_def new_client_def)
  have s3: "srv3 = \<lparr>signalController = k3,
      clientManager = \<lparr>clients = [(1, c1\<lparr>sock := (sock c1)\<lparr>written := written (sock c1) @
          [Frame STATUS 5500 (PPhase (getPhaseInfo 5500 k3))]\<rparr>\<rparr>)], nextClientId = 2\<rparr>\<rparr>"
    by (simp add: srv3_def s2 broadcastTick_def chg k3_def [symmetric] broadcastMessage_def
        targetClientIds_def getActiveClients_def act deliver_def getClient_def sendMessage_def
        formatMessage_def Let_def)
  have "subscriptions_of 1 srv2 = [] \<and>
      getSubscribedClients None (clientManager srv2) = [] \<and>
      targetClientIds None [] (clientManager srv2) = [1] \<and>
      frames_of 1 srv2 = [Frame STATUS 0 (PWelcome 1)] \<and>
      subscriptions_of 1 srv3 = [] \<and>
      frames_of 1 srv3 =
        [Frame STATUS 0 (PWelcome 1),
         Frame STATUS 5500 (PPhase (getPhaseInfo 5500 (signalController srv3)))]"
    by (simp add: s2 s3 subscriptions_of_def frames_of_def getClient_def act
        getSubscribedClients_def getSubscriptions_def targetClientIds_def getActiveClients_def)
  then show ?thesis
    unfolding Let_def srv1_def [symmetric] srv2_def [symmetric] srv3_def [symmetric] .
qed

section \<open>Invalid messages\<close>

lemma map_of_Map_set: "map_of (Map_set k v es) = (map_of es)(k \<mapsto> v)"
  by (induction es) (auto simp: fun_eq_iff)

lemma getClient_send_to:
  "getClient i (clientManager (send_to j f srv)) =
     (if i = j
      then (case getClient j (clientManager srv) of
              None \<Rightarrow> None | Some c \<Rightarrow> Some (snd (sendMessage f c)))
      else getClient i (clientManager srv))"
  by (simp add: send_to_def getClient_def map_of_Map_set split: option.splits)

lemma signalController_send_to: "signalController (send_to j f srv) = signalController srv"
  by (simp add: send_to_def split: option.splits)

lemma sendMessage_subscriptions: "subscribedRoutes (snd (sendMessage f c)) = subscribedRoutes c"
  by (simp add: sendMessage_def)

lemma sendMessage_written:
  "isActive c \<Longrightarrow> \<not> writeFails (sock c) \<Longrightarrow>
   written (sock (snd (sendMessage f c))) = written (sock c) @ [f]"
  by (simp add: sendMessage_def)

lemma invalid_message_one_error:
  assumes res: "processIncomingMessage JSON_parse rawMessage = Inr result"
    and inv: "\<not> isValid result"
    and cl: "getClient clientId (clientManager srv) = Some c"
    and act: "isActive c" "\<not> writeFails (sock c)"
  shows "\<exists>srv' err. processClientMessage JSON_parse now clientId rawMessage srv = Inr srv' \<and>
           signalController srv' = signalController srv \<and>
           frames_of clientId srv' = frames_of clientId srv @ [ErrorFrame now err ''INVALID_MESSAGE''] \<and>
           (\<forall>i. subscriptions_of i srv' = subscriptions_of i srv) \<and>
           (\<forall>i. i \<noteq> clientId \<longrightarrow> frames_of i srv' = frames_of i srv)"
proof -
  define err where "err = (case in_error result of None \<Rightarrow> ''undefined'' | Some x \<Rightarrow> x)"
  define srv' where "srv' = send_to clientId (formatError now err ''INVALID_MESSAGE'') srv"
  have p: "processClientMessage JSON_parse now clientId rawMessage srv = Inr srv'"
    using res inv cl by (simp add: processClientMessage_def srv'_def err_def)
  have k: "signalController srv' = signalController srv"
    by (simp add: srv'_def signalController_send_to)
  have f: "frames_of clientId srv' = frames_of clientId srv @ [ErrorFrame now err ''INVALID_MESSAGE'']"
    using cl act
    by (simp add: srv'_def frames_of_def getClient_send_to sendMessage_written formatError_def)
  have s: "subscriptions_of i srv' = subscriptions_of i srv" for i
    by (simp add: srv'_def subscriptions_of_def getClient_send_to sendMessage_subscriptions
        split: option.splits)
  have o: "frames_of i srv' = frames_of i srv" if "i \<noteq> clientId" for i
    using that by (simp add: srv'_def frames_of_def getClient_send_to)
  from p k f s o show ?thesis by blast
qed

lemma validateRoute_null_throws:
  "map_of kvs ''hasOwnProperty'' = None \<Longrightarrow> map_of kvs (route_name r) = Some JNull \<Longrightarrow>
   validateRoute (JObj kvs) r acc = Inl TypeError"
  by (simp add: validateRoute_def call_hasOwnProperty_def Get_def typeof_def)

lemma one_client_connected:
  "snd (handleNewConnection \<lparr>written = [], writeFails = False, destroyed = False\<rparr> 0 (new_server 0)) =
     \<lparr>signalController = constructor 0,
      clientManager =
        \<lparr>clients = [(1, new_client 1
            \<lparr>written = [Frame STATUS 0 (PWelcome 1)], writeFails = False, destroyed = False\<rparr> 0)],
         nextClientId = 2\<rparr>\<rparr>"
  by (simp add: handleNewConnection_def new_server_def addClient_def new_manager_def
      new_client_def formatMessage_def Let_def)

lemma unknown_type_example:
  "let srv = snd (handleNewConnection \<lparr>written = [], writeFails = False, destroyed = False\<rparr> 0
                    (new_server 0));
       raw = ''{\"type\":\"FOO\"}'';
       JSON_parse = (\<lambda>t. if t = raw then Some (JObj [(''type'', JStr ''FOO'')]) else None)
   in case processClientMessage JSON_parse 100 1 raw srv of
        Inl e \<Rightarrow> False
      | Inr srv' \<Rightarrow>
          signalController srv' = signalController srv \<and>
          subscriptions_of 1 srv' = [] \<and>
          frames_of 1 srv' =
            [Frame STATUS 0 (PWelcome 1),
             ErrorFrame 100 ''Unknown message type: FOO'' ''INVALID_MESSAGE'']"
proof -
  define raw where "raw = ''{\"type\":\"FOO\"}''"
  define message where "message = JObj [(''type'', JStr ''FOO'')]"
  define JSON_parse where "JSON_parse = (\<lambda>t. if t = raw then Some message else None)"
  define srv where "srv = snd (handleNewConnection \<lparr>written = [], writeFails = False, destroyed = False\<rparr> 0
                    (new_server 0))"
  have tr: "trim raw = raw"
    by (simp add: raw_def trim_def isStrWhiteSpace_def)
  have gt: "Get message ''type'' = Inr (Some (JStr ''FOO''))"
    by (simp add: message_def Get_def)
  have pm: "parseMessage JSON_parse raw = Some message"
    by (simp add: parseMessage_def tr JSON_parse_def gt truthy_def) (simp add: raw_def)
  have pin: "processIncomingMessage JSON_parse raw =
      Inr (no_incoming\<lparr>in_error := Some ''Unknown message type: FOO''\<rparr>)"
    by (simp add: processIncomingMessage_def pm gt)
  have s: "srv = \<lparr>signalController = constructor 0,
      clientManager =
        \<lparr>clients = [(1, new_client 1
            \<lparr>written = [Frame STATUS 0 (PWelcome 1)], writeFails = False, destroyed = False\<rparr> 0)],
         nextClientId = 2\<rparr>\<rparr>"
    unfolding srv_def by (rule one_client_connected)
  have "case processClientMessage JSON_parse 100 1 raw srv of
        Inl e \<Rightarrow> False
      | Inr srv' \<Rightarrow>
          signalController srv' = signalController srv \<and>
          subscriptions_of 1 srv' = [] \<and>
          frames_of 1 srv' =
            [Frame STATUS 0 (PWelcome 1),
             ErrorFrame 100 ''Unknown message type: FOO'' ''INVALID_MESSAGE'']"
    by (simp add: processClientMessage_def pin s getClient_def no_incoming_def send_to_def
        sendMessage_def new_client_def formatError_def subscriptions_of_def frames_of_def)
  then show ?thesis
    unfolding Let_def raw_def [symmetric] message_def [symmetric] srv_def [symmetric]
      JSON_parse_def [symmetric] .
qed

text \<open>
  Claim C7 fails on the code. For the invalid message
  \<open>{"type":"CAMERA_UPDATE","data":{"A":null}}\<close> validation throws a TypeError
  (\<open>typeof null\<close> is \<open>object\<close>, and reading \<open>vehicles\<close> from \<open>null\<close> throws);
  nothing catches it, so the handler ends with the exception and sends no ERROR frame.
  The same holds for the unknown message type of \<open>{"type":{"toString":1}}\<close>, whose
  conversion to a string for the error message throws.
\<close>

theorem null_route_data_throws:
  "let srv = snd (handleNewConnection \<lparr>written = [], writeFails = False, destroyed = False\<rparr> 0
                    (new_server 0));
       raw = ''{\"type\":\"CAMERA_UPDATE\",\"data\":{\"A\":null}}'';
       message = JObj [(''type'', JStr ''CAMERA_UPDATE''), (''data'', JObj [(''A'', JNull)])];
       JSON_parse = (\<lambda>t. if t = raw then Some message else None);
       raw' = ''{\"type\":{\"toString\":1}}'';
       message' = JObj [(''type'', JObj [(''toString'', JNum (Fin 1))])];
       JSON_parse' = (\<lambda>t. if t = raw' then Some message' else None)
   in frames_of 1 srv = [Frame STATUS 0 (PWelcome 1)] \<and>
      validateCameraUpdate message = Inl TypeError \<and>
      processIncomingMessage JSON_parse raw = Inl TypeError \<and>
      processClientMessage JSON_parse 100 1 raw srv = Inl TypeError \<and>
      processIncomingMessage JSON_parse' raw' = Inl TypeError \<and>
      processClientMessage JSON_parse' 100 1 raw' srv = Inl TypeError"
proof -
  define raw where "raw = ''{\"type\":\"CAMERA_UPDATE\",\"data\":{\"A\":null}}''"
  define message where
    "message = JObj [(''type'', JStr ''CAMERA_UPDATE''), (''data'', JObj [(''A'', JNull)])]"
  define srv where "srv = snd (handleNewConnection \<lparr>written = [], writeFails = False, destroyed = False\<rparr> 0
                    (new_server 0))"
  define JSON_parse where "JSON_parse = (\<lambda>t. if t = raw then Some message else None)"
  define raw' where "raw' = ''{\"type\":{\"toString\":1}}''"
  define message' where "message' = JObj [(''type'', JObj [(''toString'', JNum (Fin 1))])]"
  define JSON_parse' where "JSON_parse' = (\<lambda>t. if t = raw' then Some message' else None)"
  have v: "validateCameraUpdate message = Inl TypeError"
    by (simp add: message_def validateCameraUpdate_def Get_def truthy_def typeof_def ROUTES_def
        validateRoute_null_throws route_name_def)
  have tr: "trim raw = raw"
    by (simp add: raw_def trim_def isStrWhiteSpace_def)
  have gt: "Get message ''type'' = Inr (Some (JStr ''CAMERA_UPDATE''))"
    by (simp add: message_def Get_def)
  have pm: "parseMessage JSON_parse raw = Some message"
    by (simp add: parseMessage_def tr JSON_parse_def gt truthy_def) (simp add: raw_def)
  have pin: "processIncomingMessage JSON_parse raw = Inl TypeError"
    by (simp add: processIncomingMessage_def pm gt v)
  have tr': "trim raw' = raw'"
    by (simp add: raw'_def trim_def isStrWhiteSpace_def)
  have gt': "Get message' ''type'' = Inr (Some (JObj [(''toString'', JNum (Fin 1))]))"
    by (simp add: message'_def Get_def)
  have pm': "parseMessage JSON_parse' raw' = Some message'"
    by (simp add: parseMessage_def tr' JSON_parse'_def gt' truthy_def) (simp add: raw'_def)
  have pin': "processIncomingMessage JSON_parse' raw' = Inl TypeError"
    by (simp add: processIncomingMessage_def pm' gt')
  have s: "srv = \<lparr>signalController = constructor 0,
      clientManager =
        \<lparr>clients = [(1, new_client 1
            \<lparr>written = [Frame STATUS 0 (PWelcome 1)], writeFails = False, destroyed = False\<rparr> 0)],
         nextClientId = 2\<rparr>\<rparr>"
    unfolding srv_def by (rule one_client_connected)
  have fr: "frames_of 1 srv = [Frame STATUS 0 (PWelcome 1)]"
    by (simp add: s frames_of_def getClient_def new_client_def)
  have pc: "processClientMessage JSON_parse 100 1 raw srv = Inl TypeError"
    by (simp add: processClientMessage_def pin s getClient_def)
  have pc': "processClientMessage JSON_parse' 100 1 raw' srv = Inl TypeError"
    by (simp add: processClientMessage_def pin' s getClient_def)
  from fr v pin pc pin' pc' show ?thesis
    unfolding Let_def raw_def [symmetric] message_def [symmetric] srv_def [symmetric]
      JSON_parse_def [symmetric] raw'_def [symmetric] message'_def [symmetric]
      JSON_parse'_def [symmetric] by blast
qed

section \<open>Keys of a camera update\<close>

lemma validateRoute_cong:
  assumes "map_of kvs ''hasOwnProperty'' = None" "map_of kvs' ''hasOwnProperty'' = None"
    and "map_of kvs (route_name r) = map_of kvs' (route_name r)"
  shows "validateRoute (JObj kvs) r acc = validateRoute (JObj kvs') r acc"
proof (cases "map_of kvs' (route_name r)")
  case None
  with assms show ?thesis
    by (simp add: validateRoute_def call_hasOwnProperty_def)
next
  case (Some rd)
  with assms show ?thesis
    by (simp add: validateRoute_def call_hasOwnProperty_def Get_def)
qed

lemma validateRoutes_cong:
  assumes "map_of kvs ''hasOwnProperty'' = None" "map_of kvs' ''hasOwnProperty'' = None"
    and "\<And>r. map_of kvs (route_name r) = map_of kvs' (route_name r)"
  shows "validateRoutes (JObj kvs) rs acc = validateRoutes (JObj kvs') rs acc"
proof (induction rs arbitrary: acc)
  case Nil
  show ?case by simp
next
  case (Cons r rs)
  show ?case
    using validateRoute_cong [OF assms(1,2) assms(3), of r acc] Cons.IH
    by (simp split: sum.splits validation.splits)
qed

lemma unknown_keys_ignored:
  assumes "Get message ''data'' = Inr (Some (JObj kvs))"
    and "Get message' ''data'' = Inr (Some (JObj kvs'))"
    and "map_of kvs ''hasOwnProperty'' = None" "map_of kvs' ''hasOwnProperty'' = None"
    and "\<And>r. map_of kvs (route_name r) = map_of kvs' (route_name r)"
  shows "validateCameraUpdate message = validateCameraUpdate message'"
  using assms(1,2) validateRoutes_cong [OF assms(3,4) assms(5)]
  by (simp add: validateCameraUpdate_def truthy_def typeof_def)

lemma empty_data_valid:
  "Get message ''data'' = Inr (Some (JObj [])) \<Longrightarrow>
   validateCameraUpdate message = Inr (Valid Map.empty)"
  by (simp add: validateCameraUpdate_def truthy_def typeof_def ROUTES_def validateRoute_def
      call_hasOwnProperty_def)

lemma updateRoutes_empty: "updateRoutes Map.empty rs s = (None, s)"
  by (induction rs) simp_all

lemma handleCameraUpdate_empty:
  "signalController (handleCameraUpdate now clientId Map.empty srv) = signalController srv"
  by (simp add: handleCameraUpdate_def updateRoutes_empty signalController_send_to
      split: option.splits)

text \<open>
  Claim C10 fails on the code for one key outside the route set. In
  \<open>{"type":"CAMERA_UPDATE","data":{"hasOwnProperty":1}}\<close> the key hides the method
  the validation calls on the data, so the validation throws a TypeError and the message is
  neither accepted nor answered; another unknown key, such as \<open>E\<close>, is ignored.
\<close>

theorem hasOwnProperty_key_throws:
  "let srv = snd (handleNewConnection \<lparr>written = [], writeFails = False, destroyed = False\<rparr> 0
                    (new_server 0));
       raw = ''{\"type\":\"CAMERA_UPDATE\",\"data\":{\"hasOwnProperty\":1}}'';
       message = JObj [(''type'', JStr ''CAMERA_UPDATE''),
                       (''data'', JObj [(''hasOwnProperty'', JNum (Fin 1))])];
       other = JObj [(''type'', JStr ''CAMERA_UPDATE''), (''data'', JObj [(''E'', JNum (Fin 1))])];
       JSON_parse = (\<lambda>t. if t = raw then Some message else None)
   in validateCameraUpdate message = Inl TypeError \<and>
      validateCameraUpdate other = Inr (Valid Map.empty) \<and>
      processClientMessage JSON_parse 100 1 raw srv = Inl TypeError"
proof -
  define raw where "raw = ''{\"type\":\"CAMERA_UPDATE\",\"data\":{\"hasOwnProperty\":1}}''"
  define message where
    "message = JObj [(''type'', JStr ''CAMERA_UPDATE''),
                       (''data'', JObj [(''hasOwnProperty'', JNum (Fin 1))])]"
  define other where
    "other = JObj [(''type'', JStr ''CAMERA_UPDATE''), (''data'', JObj [(''E'', JNum (Fin 1))])]"
  define srv where "srv = snd (handleNewConnection \<lparr>written = [], writeFails = False, destroyed = False\<rparr> 0
                    (new_server 0))"
  define JSON_parse where "JSON_parse = (\<lambda>t. if t = raw then Some message else None)"
  have v: "validateCameraUpdate message = Inl TypeError"
    by (simp add: message_def validateCameraUpdate_def Get_def truthy_def typeof_def ROUTES_def
        validateRoute_def call_hasOwnProperty_def)
  have w: "validateCameraUpdate other = Inr (Valid Map.empty)"
    by (simp add: other_def validateCameraUpdate_def Get_def truthy_def typeof_def ROUTES_def
        validateRoute_def call_hasOwnProperty_def route_name_def)
  have tr: "trim raw = raw"
    by (simp add: raw_def trim_def isStrWhiteSpace_def)
  have pm: "parseMessage JSON_parse raw = Some message"
    by (simp add: parseMessage_def tr JSON_parse_def) (simp add: raw_def message_def Get_def truthy_def)
  have gt: "Get message ''type'' = Inr (Some (JStr ''CAMERA_UPDATE''))"
    by (simp add: message_def Get_def)
  have pin: "processIncomingMessage JSON_parse raw = Inl TypeError"
    by (simp add: processIncomingMessage_def pm gt v)
  have gc: "getClient 1 (clientManager srv) \<noteq> None"
    by (simp add: srv_def handleNewConnection_def new_server_def addClient_def new_manager_def
        new_client_def formatMessage_def getClient_def Let_def)
  have pc: "processClientMessage JSON_parse 100 1 raw srv = Inl TypeError"
    using gc by (auto simp: processClientMessage_def pin)
  from v w pc show ?thesis
    unfolding Let_def raw_def [symmetric] message_def [symmetric] srv_def [symmetric]
      JSON_parse_def [symmetric] other_def [symmetric] by blast
qed

end
